theory Spec2Isabelle
  imports Main "HOL-Library.Char_ord" "HOL-Library.List_Lexorder"
begin

section \<open>Python strings\<close>

text \<open>
  Python 2 byte strings are modelled as \<open>string\<close>. The helpers below follow the
  methods of \<^verbatim>\<open>str\<close> that \<^verbatim>\<open>generate.py\<close> calls. Whitespace is the ASCII set of
  \<^verbatim>\<open>str.strip()\<close> and of the pattern \<^verbatim>\<open>\s\<close>: space, tab, newline, carriage return,
  vertical tab and form feed.
\<close>

definition is_space :: "char \<Rightarrow> bool" where
  "is_space c = (c \<in> set [CHR '' '', CHR 0x09, CHR 0x0A, CHR 0x0D, CHR 0x0B, CHR 0x0C])"

definition lstrip :: "string \<Rightarrow> string" where
  "lstrip s = dropWhile is_space s"

definition rstrip :: "string \<Rightarrow> string" where
  "rstrip s = rev (dropWhile is_space (rev s))"

definition strip :: "string \<Rightarrow> string" where
  "strip s = rstrip (lstrip s)"

definition rstrip_char :: "char \<Rightarrow> string \<Rightarrow> string" where
  "rstrip_char d s = rev (dropWhile (\<lambda>c. c = d) (rev s))"

definition startswith :: "string \<Rightarrow> string \<Rightarrow> bool" where
  "startswith s p = (take (length p) s = p)"

definition endswith :: "string \<Rightarrow> string \<Rightarrow> bool" where
  "endswith s p = (length p \<le> length s \<and> drop (length s - length p) s = p)"

text \<open>\<^verbatim>\<open>p in s\<close> for strings.\<close>

fun contains :: "string \<Rightarrow> string \<Rightarrow> bool" where
  "contains [] p = (p = [])"
| "contains (c # cs) p = (startswith (c # cs) p \<or> contains cs p)"

text \<open>\<^verbatim>\<open>s[:s.index(p)]\<close>, used only where \<^verbatim>\<open>p in s\<close> has been tested.\<close>

fun before_first :: "string \<Rightarrow> string \<Rightarrow> string" where
  "before_first [] p = []"
| "before_first (c # cs) p = (if startswith (c # cs) p then [] else c # before_first cs p)"

text \<open>\<^verbatim>\<open>s.replace(old, new)\<close>: left to right, occurrences do not overlap.\<close>

fun replace_from :: "string \<Rightarrow> string \<Rightarrow> string \<Rightarrow> string" where
  "replace_from [] old new = []"
| "replace_from (c # cs) old new =
     (if startswith (c # cs) old
      then new @ replace_from (drop (length old - 1) cs) old new
      else c # replace_from cs old new)"

text \<open>With an empty \<open>old\<close>, Python puts \<open>new\<close> before every character and at the end.\<close>

definition replace :: "string \<Rightarrow> string \<Rightarrow> string \<Rightarrow> string" where
  "replace s old new =
     (if old = [] then new @ concat (map (\<lambda>c. c # new) s) else replace_from s old new)"

text \<open>\<^verbatim>\<open>sep.join(xs)\<close>.\<close>

fun join :: "string \<Rightarrow> string list \<Rightarrow> string" where
  "join sep [] = []"
| "join sep [x] = x"
| "join sep (x # y # ys) = x @ sep @ join sep (y # ys)"

text \<open>\<^verbatim>\<open>s.split(c)\<close> for a one-character separator.\<close>

fun split_on :: "char \<Rightarrow> string \<Rightarrow> string list" where
  "split_on d [] = [[]]"
| "split_on d (c # cs) =
     (let ps = split_on d cs in if c = d then [] # ps else (c # hd ps) # tl ps)"

definition is_upper :: "char \<Rightarrow> bool" where
  "is_upper c = (CHR ''A'' \<le> c \<and> c \<le> CHR ''Z'')"

definition is_lower :: "char \<Rightarrow> bool" where
  "is_lower c = (CHR ''a'' \<le> c \<and> c \<le> CHR ''z'')"

definition is_digit :: "char \<Rightarrow> bool" where
  "is_digit c = (CHR ''0'' \<le> c \<and> c \<le> CHR ''9'')"

definition to_upper :: "char \<Rightarrow> char" where
  "to_upper c = (if is_lower c then char_of (of_char c - (32::nat)) else c)"

definition to_lower :: "char \<Rightarrow> char" where
  "to_lower c = (if is_upper c then char_of (of_char c + (32::nat)) else c)"

text \<open>\<^verbatim>\<open>s.capitalize()\<close>: first character upper case, the rest lower case.\<close>

definition capitalize :: "string \<Rightarrow> string" where
  "capitalize s = (case s of [] \<Rightarrow> [] | c # cs \<Rightarrow> to_upper c # map to_lower cs)"

text \<open>
  \<^verbatim>\<open>s.title()\<close>: a letter that follows a letter is lowered, any other letter is
  raised; the flag says whether the previous character was a letter.
\<close>

fun title_from :: "bool \<Rightarrow> string \<Rightarrow> string" where
  "title_from prev [] = []"
| "title_from prev (c # cs) =
     (if is_lower c \<or> is_upper c
      then (if prev then to_lower c else to_upper c) # title_from True cs
      else c # title_from False cs)"

definition title :: "string \<Rightarrow> string" where
  "title s = title_from False s"

section \<open>Python integers and their text\<close>

text \<open>\<^verbatim>\<open>str(n)\<close> and \<^verbatim>\<open>"%d" % n\<close>: the decimal text of an integer.\<close>

fun str_nat :: "nat \<Rightarrow> string" where
  "str_nat n =
     (if n < 10 then [''0123456789'' ! n] else str_nat (n div 10) @ [''0123456789'' ! (n mod 10)])"

declare str_nat.simps [simp del]

definition str_int :: "int \<Rightarrow> string" where
  "str_int i = (if i < 0 then ''-'' @ str_nat (nat (- i)) else str_nat (nat i))"

text \<open>
  \<^verbatim>\<open>int(s)\<close> and \<^verbatim>\<open>int(s, 16)\<close> on a string: surrounding whitespace is ignored, a
  sign may come first, base 16 accepts a \<^verbatim>\<open>0x\<close> prefix, and at least one digit of the
  base must follow and nothing else. \<open>None\<close> stands for the \<^verbatim>\<open>ValueError\<close> raised
  otherwise.
\<close>

definition digit_val :: "char \<Rightarrow> nat option" where
  "digit_val c =
     (if is_digit c then Some (of_char c - 48)
      else if CHR ''a'' \<le> c \<and> c \<le> CHR ''f'' then Some (of_char c - 87)
      else if CHR ''A'' \<le> c \<and> c \<le> CHR ''F'' then Some (of_char c - 55)
      else None)"

fun digits_val :: "nat \<Rightarrow> nat \<Rightarrow> string \<Rightarrow> nat option" where
  "digits_val base acc [] = Some acc"
| "digits_val base acc (c # cs) =
     (case digit_val c of
        None \<Rightarrow> None
      | Some d \<Rightarrow> if d < base then digits_val base (acc * base + d) cs else None)"

definition py_int :: "nat \<Rightarrow> string \<Rightarrow> int option" where
  "py_int base s =
     (let t = strip s;
          neg = startswith t ''-'';
          u = (if startswith t ''-'' \<or> startswith t ''+'' then drop 1 t else t);
          d = (if base = 16 \<and> (startswith u ''0x'' \<or> startswith u ''0X'') then drop 2 u else u)
      in if d = [] then None
         else map_option (\<lambda>n. if neg then - int n else int n) (digits_val base 0 d))"

section \<open>Regular expressions\<close>

text \<open>
  The patterns of \<^verbatim>\<open>generate.py\<close> use literals, the classes \<^verbatim>\<open>.\<close>, \<^verbatim>\<open>\s\<close>, \<^verbatim>\<open>\S\<close>,
  \<^verbatim>\<open>\w\<close> and single characters, the greedy repetitions \<^verbatim>\<open>*\<close> and \<^verbatim>\<open>+\<close> and the lazy
  \<^verbatim>\<open>+?\<close> on a class, sequencing, alternation, optional groups, capture groups and the
  anchors \<^verbatim>\<open>^\<close> and \<^verbatim>\<open>$\<close>. The matcher is a backtracking one in continuation style,
  trying alternatives in the order Python's \<^verbatim>\<open>re\<close> does: a greedy repetition takes the
  longest run first and gives characters back, a lazy one takes the shortest first, an
  optional group is tried before it is skipped.
\<close>

datatype cclass = CAny | CSpace | CNonSpace | CWord | CChar char

fun in_class :: "cclass \<Rightarrow> char \<Rightarrow> bool" where
  "in_class CAny c = (c \<noteq> CHR 0x0A)"
| "in_class CSpace c = is_space c"
| "in_class CNonSpace c = (\<not> is_space c)"
| "in_class CWord c = (is_lower c \<or> is_upper c \<or> is_digit c \<or> c = CHR ''_'')"
| "in_class (CChar d) c = (c = d)"

datatype regex =
    Eps
  | Lit string
  | Star cclass
  | Plus cclass
  | PlusLazy cclass
  | Seq regex regex
  | Alt regex regex
  | Opt regex
  | Grp nat regex
  | Bol
  | Eol

type_synonym caps = "(nat \<times> string) list"

fun star_greedy :: "(char \<Rightarrow> bool) \<Rightarrow> string \<Rightarrow> (string \<Rightarrow> 'a option) \<Rightarrow> 'a option" where
  "star_greedy P [] k = k []"
| "star_greedy P (c # cs) k =
     (if P c then (case star_greedy P cs k of Some r \<Rightarrow> Some r | None \<Rightarrow> k (c # cs))
      else k (c # cs))"

fun star_lazy :: "(char \<Rightarrow> bool) \<Rightarrow> string \<Rightarrow> (string \<Rightarrow> 'a option) \<Rightarrow> 'a option" where
  "star_lazy P [] k = k []"
| "star_lazy P (c # cs) k =
     (case k (c # cs) of
        Some r \<Rightarrow> Some r
      | None \<Rightarrow> if P c then star_lazy P cs k else None)"

text \<open>
  \<open>rx n r s g k\<close> matches \<open>r\<close> at the front of \<open>s\<close>, the rest of a subject of length
  \<open>n\<close>, with the groups \<open>g\<close> captured so far, and hands the rest and the groups to the
  continuation \<open>k\<close>; \<open>None\<close> makes the caller backtrack.
\<close>

fun rx :: "nat \<Rightarrow> regex \<Rightarrow> string \<Rightarrow> caps \<Rightarrow> (string \<Rightarrow> caps \<Rightarrow> 'a option) \<Rightarrow> 'a option" where
  "rx n Eps s g k = k s g"
| "rx n (Lit p) s g k = (if startswith s p then k (drop (length p) s) g else None)"
| "rx n (Star C) s g k = star_greedy (in_class C) s (\<lambda>s'. k s' g)"
| "rx n (Plus C) s g k =
     (case s of
        [] \<Rightarrow> None
      | c # cs \<Rightarrow> if in_class C c then star_greedy (in_class C) cs (\<lambda>s'. k s' g) else None)"
| "rx n (PlusLazy C) s g k =
     (case s of
        [] \<Rightarrow> None
      | c # cs \<Rightarrow> if in_class C c then star_lazy (in_class C) cs (\<lambda>s'. k s' g) else None)"
| "rx n (Seq r1 r2) s g k = rx n r1 s g (\<lambda>s' g'. rx n r2 s' g' k)"
| "rx n (Alt r1 r2) s g k =
     (case rx n r1 s g k of Some r \<Rightarrow> Some r | None \<Rightarrow> rx n r2 s g k)"
| "rx n (Opt r) s g k =
     (case rx n r s g k of Some r \<Rightarrow> Some r | None \<Rightarrow> k s g)"
| "rx n (Grp i r) s g k =
     rx n r s g (\<lambda>s' g'. k s' ((i, take (length s - length s') s) # g'))"
| "rx n Bol s g k = (if length s = n then k s g else None)"
| "rx n Eol s g k = (if s = [] \<or> s = [CHR 0x0A] then k s g else None)"

definition seqs :: "regex list \<Rightarrow> regex" where
  "seqs rs = foldr Seq rs Eps"

text \<open>
  A match is the subject from where the match starts, the subject from where it ends,
  and the captured groups. \<open>group\<close> reads a group; a group that took no part in the match
  is \<open>None\<close>, as in Python.
\<close>

type_synonym rmatch = "string \<times> string \<times> caps"

definition group :: "rmatch \<Rightarrow> nat \<Rightarrow> string option" where
  "group m i = map_of (snd (snd m)) i"

definition re_match_at :: "nat \<Rightarrow> regex \<Rightarrow> string \<Rightarrow> rmatch option" where
  "re_match_at n r s = rx n r s [] (\<lambda>s' g. Some (s, s', g))"

text \<open>\<^verbatim>\<open>r.match(s)\<close>: the match starts at the beginning of \<open>s\<close>.\<close>

definition re_match :: "regex \<Rightarrow> string \<Rightarrow> rmatch option" where
  "re_match r s = re_match_at (length s) r s"

text \<open>\<^verbatim>\<open>r.search(s)\<close>: the first position from the left where the pattern matches.\<close>

fun re_search_from :: "nat \<Rightarrow> regex \<Rightarrow> string \<Rightarrow> rmatch option" where
  "re_search_from n r [] = re_match_at n r []"
| "re_search_from n r (c # cs) =
     (case re_match_at n r (c # cs) of
        Some m \<Rightarrow> Some m
      | None \<Rightarrow> re_search_from n r cs)"

definition re_search :: "regex \<Rightarrow> string \<Rightarrow> rmatch option" where
  "re_search r s = re_search_from (length s) r s"

text \<open>
  The successive matches from left to right, none overlapping the one before. Every
  pattern this is used with consumes at least one character; after a match that
  consumed nothing the scan moves one character on.
\<close>

function re_finditer_from :: "nat \<Rightarrow> regex \<Rightarrow> string \<Rightarrow> rmatch list" where
  "re_finditer_from n r s =
     (case re_match_at n r s of
        Some (b, e, g) \<Rightarrow>
          (if length e < length s then (b, e, g) # re_finditer_from n r e
           else (case s of [] \<Rightarrow> [(b, e, g)] | c # cs \<Rightarrow> (b, e, g) # re_finditer_from n r cs))
      | None \<Rightarrow> (case s of [] \<Rightarrow> [] | c # cs \<Rightarrow> re_finditer_from n r cs))"
  by pat_completeness auto
termination
  by (relation "measure (\<lambda>(n, r, s). length s)") auto

declare re_finditer_from.simps [simp del]

definition re_finditer :: "regex \<Rightarrow> string \<Rightarrow> rmatch list" where
  "re_finditer r s = re_finditer_from (length s) r s"

text \<open>\<^verbatim>\<open>r.findall(s)\<close> for a pattern with one group: the text of group 1 of each match.\<close>

definition re_findall1 :: "regex \<Rightarrow> string \<Rightarrow> string list" where
  "re_findall1 r s = map (\<lambda>m. case group m 1 of Some x \<Rightarrow> x | None \<Rightarrow> []) (re_finditer r s)"

text \<open>\<^verbatim>\<open>r.split(s)\<close> for a pattern without groups: the text between the matches.\<close>

fun split_at_matches :: "string \<Rightarrow> rmatch list \<Rightarrow> string list" where
  "split_at_matches s [] = [s]"
| "split_at_matches s ((b, e, g) # ms) = take (length s - length b) s # split_at_matches e ms"

definition re_split :: "regex \<Rightarrow> string \<Rightarrow> string list" where
  "re_split r s = split_at_matches s (re_finditer r s)"

subsection \<open>The precompiled patterns\<close>

text \<open>
  \<^verbatim>\<open>api_re\<close>, \<^verbatim>\<open>param_re\<close>, \<^verbatim>\<open>paramlist_re\<close>, \<^verbatim>\<open>comment_re\<close>, \<^verbatim>\<open>forward_re\<close> and
  \<^verbatim>\<open>enum_re\<close> as compiled at the top of \<^verbatim>\<open>generate.py\<close>. In \<^verbatim>\<open>comment_re\<close> the source
  string \<^verbatim>\<open>'\\param\s+(\S+)'\<close> denotes the pattern \<^verbatim>\<open>\param\s+(\S+)\<close>, whose \<^verbatim>\<open>\p\<close> is
  an unknown escape and matches the letter p.
\<close>

definition api_re :: regex where
  "api_re = seqs [Lit ''VLC_PUBLIC_API'', Plus CSpace,
                  Grp 1 (seqs [Plus CNonSpace, Plus CSpace, PlusLazy CAny]),
                  Star CSpace, Lit ''('', Star CSpace, Grp 2 (PlusLazy CAny),
                  Star CSpace, Lit '')'']"

definition param_re :: regex where
  "param_re = seqs [Star CSpace,
                    Opt (Grp 1 (Alt (seqs [Lit ''const'', Star CSpace])
                               (Alt (seqs [Lit ''unsigned'', Star CSpace])
                                    (seqs [Lit ''struct'', Star CSpace])))),
                    Grp 2 (seqs [Plus CNonSpace, Star CSpace, Star (CChar (CHR ''*''))]),
                    Plus CSpace, Grp 3 (Plus CAny)]"

definition paramlist_re :: regex where
  "paramlist_re = seqs [Star CSpace, Lit '','', Star CSpace]"

definition comment_re :: regex where
  "comment_re = seqs [Lit ''param'', Plus CSpace, Grp 1 (Plus CNonSpace)]"

definition forward_re :: regex where
  "forward_re = seqs [Plus CAny, Lit ''('', Star CSpace, Grp 1 (PlusLazy CAny), Star CSpace,
                      Lit '')'', Grp 2 (seqs [Star CSpace, Plus CNonSpace])]"

definition enum_re :: regex where
  "enum_re = seqs [Opt (seqs [Lit ''typedef'', Plus CSpace]), Grp 1 (Lit ''enum''), Star CSpace,
                   Grp 2 (Plus CNonSpace), Star CSpace, Lit ''{'', Star CSpace,
                   Grp 3 (Plus CAny), Star CSpace, Lit ''}'', Star CSpace,
                   Opt (Plus CNonSpace), Lit '';'']"

text \<open>The two patterns written inline in \<^verbatim>\<open>parse_typedef\<close>.\<close>

definition enum_start_re :: regex where
  "enum_start_re = seqs [Bol, Opt (seqs [Lit ''typedef'', Plus CSpace]), Lit ''enum'']"

definition assign_re :: regex where
  "assign_re = seqs [Star CSpace, Lit ''='', Star CSpace]"

section \<open>The parser\<close>

text \<open>
  The exceptions the modelled code can raise. \<open>Exception\<close> carries the message of an
  explicit \<^verbatim>\<open>raise Exception(...)\<close>.
\<close>

datatype py_error = ValueError | AttributeError | IndexError | KeyError string | Exception string

text \<open>
  An enum definition is the tuple \<^verbatim>\<open>(type, name, value_list, comment)\<close> and a function
  declaration the tuple \<^verbatim>\<open>(return_type, method_name, parameter_list, comment)\<close>, as
  \<^verbatim>\<open>parse_typedef\<close> and \<^verbatim>\<open>parse_include\<close> yield them.
\<close>

type_synonym param = "string \<times> string"
type_synonym enum_def = "string \<times> string \<times> (string \<times> string) list \<times> string"
type_synonym method_def = "string \<times> string \<times> param list \<times> string"

subsection \<open>\<^verbatim>\<open>Parser.parse_param\<close>\<close>

text \<open>The loop that moves leading stars from the name to the type.\<close>

fun move_stars :: "string \<Rightarrow> string \<Rightarrow> string \<times> string" where
  "move_stars typ [] = (typ, [])"
| "move_stars typ (c # cs) =
     (if c = CHR ''*'' then move_stars (typ @ ''*'') cs else (typ, c # cs))"

definition the_group :: "rmatch \<Rightarrow> nat \<Rightarrow> string" where
  "the_group m i = (case group m i of Some x \<Rightarrow> x | None \<Rightarrow> [])"

definition parse_param :: "string \<Rightarrow> py_error + param" where
  "parse_param s0 =
     (let s1 = replace (strip s0) ''const'' [];
          fwd = (if contains s1 ''VLC_FORWARD''
                 then (case re_match forward_re s1 of
                         None \<Rightarrow> Inl AttributeError
                       | Some m \<Rightarrow> Inr (the_group m 1 @ the_group m 2))
                 else Inr s1)
      in case fwd of
           Inl e \<Rightarrow> Inl e
         | Inr s \<Rightarrow>
             (case re_search param_re s of
                Some m \<Rightarrow>
                  (let (typ, name) = move_stars (the_group m 2) (the_group m 3);
                       name' = (if name = ''const*'' then [] else name)
                   in Inr (replace typ '' '' [], name'))
              | None \<Rightarrow> Inr (replace s '' '' [], [])))"

subsection \<open>\<^verbatim>\<open>Parser.parse_typedef\<close>\<close>

text \<open>
  The inner loop over the pieces of the member list. \<open>val\<close> is the running counter and
  \<open>values\<close> the list built so far. A piece that starts a comment is skipped by
  \<^verbatim>\<open>continue\<close>, before the counter moves; unpacking \<^verbatim>\<open>n, v = re.split(...)\<close> raises
  \<^verbatim>\<open>ValueError\<close> unless the split gives two parts, and so does \<^verbatim>\<open>int\<close> on a text that
  is no number.
\<close>

definition enum_int :: "string \<Rightarrow> int option" where
  "enum_int v = (if startswith v ''0x'' then py_int 16 v else py_int 10 v)"

fun enum_values :: "string list \<Rightarrow> int \<Rightarrow> (string \<times> string) list
                      \<Rightarrow> py_error + (string \<times> string) list" where
  "enum_values [] val values = Inr values"
| "enum_values (l0 # ls) val values =
     (let l = strip l0 in
      if startswith l ''/*'' then enum_values ls val values
      else if CHR ''='' \<in> set l then
        (case re_split assign_re l of
           [n, v] \<Rightarrow>
             (case enum_int v of
                None \<Rightarrow> Inl ValueError
              | Some k \<Rightarrow> enum_values ls (k + 1) (values @ [(n, v)]))
         | _ \<Rightarrow> Inl ValueError)
      else enum_values ls (val + 1) (if l \<noteq> [] then values @ [(l, str_int val)] else values))"

text \<open>The clean-up of the comment text before an enum is yielded.\<close>

definition clean_comment :: "string \<Rightarrow> string" where
  "clean_comment c0 =
     (let c1 = (if endswith c0 ''*/'' then take (length c0 - 2) c0 else c0);
          c2 = strip c1
      in if c2 \<noteq> [] then rstrip_char (CHR ''.'') (capitalize c2) @ ''.'' else c2)"

text \<open>
  What is done with a logical line \<open>l\<close> once comments and accumulation are dealt with:
  \<^verbatim>\<open>enum_re.match(l)\<close> and, on a match, the tuple yielded. \<open>None\<close> in the result means
  nothing is yielded.
\<close>

definition parse_enum :: "string \<Rightarrow> string \<Rightarrow> py_error + enum_def option" where
  "parse_enum comment l =
     (case re_match enum_re l of
        None \<Rightarrow> Inr None
      | Some m \<Rightarrow>
          (case enum_values (re_split paramlist_re (the_group m 3)) 0 [] of
             Inl e \<Rightarrow> Inl e
           | Inr values \<Rightarrow>
               (let name = (case group m 2 of
                              None \<Rightarrow> ''libvlc_enum_t''
                            | Some nm \<Rightarrow> strip nm)
                in Inr (Some (the_group m 1, name, values, clean_comment comment)))))"

text \<open>The variables of the loop over the lines of the file, and the tuples yielded.\<close>

record typedef_state =
  td_accumulator :: string
  td_comment :: string
  td_simple_comment :: "string option"
  td_yielded :: "enum_def list"

definition typedef_init :: typedef_state where
  "typedef_init = \<lparr>td_accumulator = [], td_comment = [], td_simple_comment = None,
                    td_yielded = []\<rparr>"

definition typedef_match :: "typedef_state \<Rightarrow> string \<Rightarrow> py_error + typedef_state" where
  "typedef_match st l =
     (case parse_enum (td_comment st) l of
        Inl e \<Rightarrow> Inl e
      | Inr None \<Rightarrow> Inr st
      | Inr (Some d) \<Rightarrow> Inr (st\<lparr>td_yielded := td_yielded st @ [d], td_comment := []\<rparr>))"

definition typedef_line :: "typedef_state \<Rightarrow> string \<Rightarrow> py_error + typedef_state" where
  "typedef_line st l0 =
     (if startswith (lstrip l0) ''/**'' then Inr (st\<lparr>td_comment := drop 3 l0\<rparr>)
      else if startswith l0 '' * '' then Inr (st\<lparr>td_comment := td_comment st @ drop 3 l0\<rparr>)
      else
        (let l = strip l0 in
         if startswith l ''/*'' then
           Inr (st\<lparr>td_simple_comment := (if endswith l ''*/'' then None else Some (drop 2 l))\<rparr>)
         else
           (case td_simple_comment st of
              Some sc \<Rightarrow>
                Inr (st\<lparr>td_simple_comment := (if endswith l ''*/'' then None else Some (sc @ l))\<rparr>)
            | None \<Rightarrow>
                if re_match enum_start_re l \<noteq> None \<and> \<not> endswith l '';''
                then Inr (st\<lparr>td_accumulator := l\<rparr>)
                else if td_accumulator st \<noteq> [] then
                  (let l' = (if contains l ''/*'' then before_first l ''/*'' else l);
                       acc = join '' '' [td_accumulator st, l']
                   in if endswith l' '';''
                      then typedef_match (st\<lparr>td_accumulator := []\<rparr>) acc
                      else Inr (st\<lparr>td_accumulator := acc\<rparr>))
                else typedef_match st l)))"

fun typedef_loop :: "typedef_state \<Rightarrow> string list \<Rightarrow> py_error + typedef_state" where
  "typedef_loop st [] = Inr st"
| "typedef_loop st (l # ls) =
     (case typedef_line st l of Inl e \<Rightarrow> Inl e | Inr st' \<Rightarrow> typedef_loop st' ls)"

text \<open>
  A file is the list of its lines, each with its line end, as iterating over the open
  file gives them. The generator is consumed whole by \<^verbatim>\<open>extend\<close>, so its result is the
  list of everything it yields, or the exception it raises on the way.
\<close>

definition parse_typedef :: "string list \<Rightarrow> py_error + enum_def list" where
  "parse_typedef f =
     (case typedef_loop typedef_init f of Inl e \<Rightarrow> Inl e | Inr st \<Rightarrow> Inr (td_yielded st))"

subsection \<open>\<^verbatim>\<open>Parser.parse_include\<close>\<close>

text \<open>Parsing every piece of the parameter list, stopping at the first exception.\<close>

fun parse_params :: "string list \<Rightarrow> py_error + param list" where
  "parse_params [] = Inr []"
| "parse_params (p # ps) =
     (case parse_param p of
        Inl e \<Rightarrow> Inl e
      | Inr x \<Rightarrow> (case parse_params ps of Inl e \<Rightarrow> Inl e | Inr xs \<Rightarrow> Inr (x # xs)))"

text \<open>
  The recovery of parameter names from the comment, taken when some parameter has an
  empty name. The result is the new parameter list and the lines printed.
  \<open>badnames\<close> is \<^verbatim>\<open>["param%d" % i for i in xrange(len(params))]\<close> with the names found
  put in at their positions.
\<close>

definition badnames :: "string list \<Rightarrow> nat \<Rightarrow> string list" where
  "badnames names n =
     fold (\<lambda>i bad. bad[i := names ! i]) [0..<length names]
          (map (\<lambda>i. ''param'' @ str_nat i) [0..<n])"

definition recover_names :: "string \<Rightarrow> string \<Rightarrow> param list \<Rightarrow> param list \<times> string list" where
  "recover_names method comment params =
     (let names = re_findall1 comment_re comment;
          short = (length names < length params);
          names' = (if short then badnames names (length params) else names);
          printed = (if short
                     then [''### Error ###'',
                           ''### Cannot get parameter names from comment for '' @ method @ '': ''
                             @ replace comment [CHR 0x0A] '' '']
                     else [])
      in (map (\<lambda>(i, p). (fst p, names' ! i)) (enumerate 0 params), printed))"

text \<open>
  What is done with a logical line: \<^verbatim>\<open>api_re.match(l)\<close> and, on a match, the tuple
  yielded together with the lines printed.
\<close>

definition parse_api :: "string \<Rightarrow> string \<Rightarrow> py_error + (method_def \<times> string list) option" where
  "parse_api comment l =
     (case re_match api_re l of
        None \<Rightarrow> Inr None
      | Some m \<Rightarrow>
          (case parse_param (the_group m 1) of
             Inl e \<Rightarrow> Inl e
           | Inr (rtype, method) \<Rightarrow>
               (case parse_params (re_split paramlist_re (the_group m 2)) of
                  Inl e \<Rightarrow> Inl e
                | Inr params0 \<Rightarrow>
                    (let params1 = (if length params0 = 1 \<and> fst (params0 ! 0) = ''void''
                                    then [] else params0);
                         (params2, printed) =
                            (if filter (\<lambda>p. snd p = []) params1 \<noteq> []
                             then recover_names method comment params1
                             else (params1, []))
                     in Inr (Some ((rtype, method, params2, comment), printed))))))"

record include_state =
  inc_accumulator :: string
  inc_comment :: string
  inc_yielded :: "method_def list"
  inc_printed :: "string list"

definition include_init :: include_state where
  "include_init = \<lparr>inc_accumulator = [], inc_comment = [], inc_yielded = [],
                    inc_printed = []\<rparr>"

definition include_match :: "include_state \<Rightarrow> string \<Rightarrow> py_error + include_state" where
  "include_match st l =
     (case parse_api (inc_comment st) l of
        Inl e \<Rightarrow> Inl e
      | Inr None \<Rightarrow> Inr st
      | Inr (Some (d, printed)) \<Rightarrow>
          Inr (st\<lparr>inc_yielded := inc_yielded st @ [d],
                  inc_printed := inc_printed st @ printed,
                  inc_comment := []\<rparr>))"

definition include_line :: "include_state \<Rightarrow> string \<Rightarrow> py_error + include_state" where
  "include_line st l0 =
     (if startswith (lstrip l0) ''/**'' then Inr (st\<lparr>inc_comment := []\<rparr>)
      else if startswith l0 '' * '' then Inr (st\<lparr>inc_comment := inc_comment st @ drop 3 l0\<rparr>)
      else
        (let l = strip l0 in
         if inc_accumulator st \<noteq> [] then
           (let acc = join '' '' [inc_accumulator st, l]
            in if endswith l '');''
               then include_match (st\<lparr>inc_accumulator := []\<rparr>) acc
               else include_match (st\<lparr>inc_accumulator := acc\<rparr>) l)
         else if startswith l ''VLC_PUBLIC_API'' \<and> \<not> endswith l '');''
         then Inr (st\<lparr>inc_accumulator := l\<rparr>)
         else include_match st l))"

fun include_loop :: "include_state \<Rightarrow> string list \<Rightarrow> py_error + include_state" where
  "include_loop st [] = Inr st"
| "include_loop st (l # ls) =
     (case include_line st l of Inl e \<Rightarrow> Inl e | Inr st' \<Rightarrow> include_loop st' ls)"

text \<open>The result is what the generator yields and what it prints on the way.\<close>

definition parse_include :: "string list \<Rightarrow> py_error + method_def list \<times> string list" where
  "parse_include f =
     (case include_loop include_init f of
        Inl e \<Rightarrow> Inl e
      | Inr st \<Rightarrow> Inr (inc_yielded st, inc_printed st))"

subsection \<open>\<^verbatim>\<open>Parser.__init__\<close>\<close>

record parser =
  parser_methods :: "method_def list"
  parser_enums :: "enum_def list"
  parser_printed :: "string list"

fun parser_files :: "parser \<Rightarrow> string list list \<Rightarrow> py_error + parser" where
  "parser_files p [] = Inr p"
| "parser_files p (f # fs) =
     (case parse_typedef f of
        Inl e \<Rightarrow> Inl e
      | Inr es \<Rightarrow>
          (case parse_include f of
             Inl e \<Rightarrow> Inl e
           | Inr (ms, pr) \<Rightarrow>
               parser_files (p\<lparr>parser_enums := parser_enums p @ es,
                               parser_methods := parser_methods p @ ms,
                               parser_printed := parser_printed p @ pr\<rparr>) fs))"

definition Parser :: "string list list \<Rightarrow> py_error + parser" where
  "Parser list_of_files =
     parser_files \<lparr>parser_methods = [], parser_enums = [], parser_printed = []\<rparr> list_of_files"

section \<open>Parameter direction flags\<close>

text \<open>
  The class \<open>Flag\<close> of \<^verbatim>\<open>generate.py\<close> holds four integer constants; \<open>flag_value\<close>
  gives the integer each one stands for.
\<close>

datatype Flag = In | Out | InOut | InZero

fun flag_value :: "Flag \<Rightarrow> int" where
  "flag_value In = 1"
| "flag_value Out = 2"
| "flag_value InOut = 3"
| "flag_value InZero = 4"

text \<open>
  \<open>paramFlag3\<close> looks the type up in a three-entry dictionary with default \<open>Flag.In\<close>
  and wraps the result in a 1-tuple, modelled as a one-element list.
\<close>

definition paramFlag3_table :: "string \<rightharpoonup> Flag" where
  "paramFlag3_table =
     [''int*'' \<mapsto> Out,
      ''unsigned*'' \<mapsto> Out,
      ''libvlc_exception_t*'' \<mapsto> InOut]"

definition paramFlag3 :: "string \<Rightarrow> Flag list" where
  "paramFlag3 typ = [case paramFlag3_table typ of Some f \<Rightarrow> f | None \<Rightarrow> In]"

section \<open>The Python generator\<close>

text \<open>The module-level list of methods that are neither decorated nor referenced.\<close>

definition blacklist :: "string list" where
  "blacklist = [''libvlc_set_exit_handler'', ''libvlc_video_set_callbacks'']"

text \<open>
  \<^verbatim>\<open>PythonGenerator.type2class\<close> as written in the class body, and
  \<^verbatim>\<open>PythonGenerator.defined_classes\<close>.
\<close>

definition py_type2class :: "(string \<times> string) list" where
  "py_type2class =
     [(''libvlc_media_player_t*'', ''MediaPlayer''),
      (''libvlc_instance_t*'', ''Instance''),
      (''libvlc_media_t*'', ''Media''),
      (''libvlc_log_t*'', ''Log''),
      (''libvlc_log_iterator_t*'', ''LogIterator''),
      (''libvlc_log_message_t*'', ''ctypes.POINTER(LogMessage)''),
      (''libvlc_event_type_t'', ''ctypes.c_uint''),
      (''libvlc_event_manager_t*'', ''EventManager''),
      (''libvlc_media_discoverer_t*'', ''MediaDiscoverer''),
      (''libvlc_media_library_t*'', ''MediaLibrary''),
      (''libvlc_media_list_t*'', ''MediaList''),
      (''libvlc_media_list_player_t*'', ''MediaListPlayer''),
      (''libvlc_media_list_view_t*'', ''MediaListView''),
      (''libvlc_track_description_t*'', ''ctypes.POINTER(TrackDescription)''),
      (''libvlc_audio_output_t*'', ''ctypes.POINTER(AudioOutput)''),
      (''libvlc_media_stats_t*'', ''ctypes.POINTER(MediaStats)''),
      (''libvlc_media_track_info_t**'', ''ctypes.POINTER(ctypes.POINTER(MediaTrackInfo))''),
      (''libvlc_drawable_t'', ''ctypes.c_uint''),
      (''libvlc_rectangle_t*'', ''ctypes.POINTER(Rectangle)''),
      (''WINDOWHANDLE'', ''ctypes.c_ulong''),
      (''void'', ''None''),
      (''void*'', ''ctypes.c_void_p''),
      (''short'', ''ctypes.c_short''),
      (''char*'', ''ctypes.c_char_p''),
      (''char**'', ''ListPOINTER(ctypes.c_char_p)''),
      (''uint32_t'', ''ctypes.c_uint32''),
      (''int64_t'', ''ctypes.c_int64''),
      (''float'', ''ctypes.c_float''),
      (''unsigned'', ''ctypes.c_uint''),
      (''unsigned*'', ''ctypes.POINTER(ctypes.c_uint)''),
      (''int'', ''ctypes.c_int''),
      (''int*'', ''ctypes.POINTER(ctypes.c_int)''),
      (''...'', ''FIXME_va_list''),
      (''libvlc_callback_t'', ''ctypes.c_void_p''),
      (''libvlc_time_t'', ''ctypes.c_longlong'')]"

definition defined_classes :: "string list" where
  "defined_classes =
     [''MediaPlayer'', ''Instance'', ''Media'', ''Log'', ''LogIterator'', ''EventManager'',
      ''MediaDiscoverer'', ''MediaLibrary'', ''MediaList'', ''MediaListPlayer'',
      ''MediaListView'']"

subsection \<open>\<^verbatim>\<open>PythonGenerator.convert_enum_names\<close>\<close>

text \<open>The pattern \<^verbatim>\<open>libvlc_(.+?)(_t)?$\<close>.\<close>

definition py_enum_name_re :: regex where
  "py_enum_name_re = seqs [Lit ''libvlc_'', Grp 1 (PlusLazy CAny), Opt (Grp 2 (Lit ''_t'')), Eol]"

text \<open>
  \<^verbatim>\<open>re.findall(...)[0][0]\<close> is group 1 of the first match and raises \<^verbatim>\<open>IndexError\<close>
  when there is none. The result dictionary is built entry by entry.
\<close>

definition py_enum_pyname :: "string \<Rightarrow> py_error + string" where
  "py_enum_pyname name =
     (case re_search py_enum_name_re name of
        None \<Rightarrow> Inl IndexError
      | Some m \<Rightarrow>
          (let pyname = the_group m 1 in
           Inr (if name = ''libvlc_event_e'' then ''EventType''
                else if CHR ''_'' \<in> set pyname then replace (title pyname) ''_'' []
                else if \<not> is_upper (hd pyname) then capitalize pyname
                else pyname)))"

fun py_convert_enum_names :: "enum_def list \<Rightarrow> (string \<rightharpoonup> string) \<Rightarrow> py_error + (string \<rightharpoonup> string)" where
  "py_convert_enum_names [] res = Inr res"
| "py_convert_enum_names ((typ, name, values, comment) # es) res =
     (if typ \<noteq> ''enum'' then Inl (Exception ''This method only handles enums'')
      else (case py_enum_pyname name of
              Inl e \<Rightarrow> Inl e
            | Inr pyname \<Rightarrow> py_convert_enum_names es (res(name \<mapsto> pyname))))"

subsection \<open>\<^verbatim>\<open>PythonGenerator.check_types\<close>\<close>

definition no_conversion :: "string \<Rightarrow> string \<Rightarrow> string \<Rightarrow> py_error" where
  "no_conversion typ met name =
     Exception (''No conversion for '' @ typ @ '' (from '' @ met @ '':'' @ name @ '')'')"

fun check_params :: "(string \<rightharpoonup> string) \<Rightarrow> string \<Rightarrow> param list \<Rightarrow> py_error option" where
  "check_params t2c met [] = None"
| "check_params t2c met ((typ, name) # ps) =
     (if t2c typ = None then Some (no_conversion typ met name) else check_params t2c met ps)"

fun py_check_types :: "(string \<rightharpoonup> string) \<Rightarrow> method_def list \<Rightarrow> py_error option" where
  "py_check_types t2c [] = None"
| "py_check_types t2c ((rt, met, params, c) # ms) =
     (case check_params t2c met params of
        Some e \<Rightarrow> Some e
      | None \<Rightarrow> py_check_types t2c ms)"

subsection \<open>\<^verbatim>\<open>PythonGenerator.__init__\<close>\<close>

text \<open>
  The generator keeps the parser, the type table extended with the enum names, and the
  prefixes. The prefixes dictionary is built from \<^verbatim>\<open>type2class.iteritems()\<close>, whose order
  the language does not fix: \<open>iterkeys\<close> is the order in which the dictionary gives its
  keys, and a later pair for the same class replaces an earlier one.
\<close>

record py_generator =
  gen_parser :: parser
  gen_type2class :: "string \<rightharpoonup> string"
  gen_prefixes :: "string \<rightharpoonup> string"

definition make_prefixes :: "(string \<rightharpoonup> string) \<Rightarrow> string list \<Rightarrow> (string \<rightharpoonup> string)" where
  "make_prefixes t2c iterkeys =
     fold (\<lambda>k pre. case t2c k of
                      None \<Rightarrow> pre
                    | Some v \<Rightarrow> if v \<in> set defined_classes
                                then pre(v \<mapsto> take (length k - 2) k) else pre)
          iterkeys Map.empty"

definition PythonGenerator :: "string list \<Rightarrow> parser \<Rightarrow> py_error + py_generator" where
  "PythonGenerator iterkeys p =
     (case py_convert_enum_names (parser_enums p) (map_of py_type2class) of
        Inl e \<Rightarrow> Inl e
      | Inr t2c \<Rightarrow>
          (case py_check_types t2c (parser_methods p) of
             Some e \<Rightarrow> Inl e
           | None \<Rightarrow>
               Inr \<lparr>gen_parser = p, gen_type2class = t2c,
                    gen_prefixes = make_prefixes t2c iterkeys\<rparr>))"

subsection \<open>What is written\<close>

text \<open>
  Every call of \<^verbatim>\<open>self.output\<close> is one item of the output, in order. A call whose text
  is one plain line is kept as that text; a call that fills a template is kept as the
  template's name with the values put into it.
\<close>

datatype out_item =
    Text string
  | BuildDate string
  | EnumBase
  | EnumDoc string
  | EnumEntry string string
  | ClassDoc string
  | ClassNew
  | ClassFromParam
  | Wrapper string string string string
  | WrapperLen string
  | WrapperGetitem string
  | Ctypes string string string string

subsection \<open>\<^verbatim>\<open>PythonGenerator.epydoc_comment\<close>\<close>

text \<open>\<^verbatim>\<open>s.splitlines()\<close>: lines end at \<^verbatim>\<open>\n\<close>, \<^verbatim>\<open>\r\<close> or \<^verbatim>\<open>\r\n\<close>.\<close>

fun splitlines_from :: "string \<Rightarrow> string \<Rightarrow> string list" where
  "splitlines_from cur [] = (if cur = [] then [] else [cur])"
| "splitlines_from cur (c # cs) =
     (if c = CHR 0x0A then cur # splitlines_from [] cs
      else if c = CHR 0x0D then
        (case cs of
           d # ds \<Rightarrow> if d = CHR 0x0A then cur # splitlines_from [] ds
                     else cur # splitlines_from [] cs
         | [] \<Rightarrow> cur # splitlines_from [] cs)
      else splitlines_from (cur @ [c]) cs)"

definition splitlines :: "string \<Rightarrow> string list" where
  "splitlines s = splitlines_from [] s"

text \<open>\<^verbatim>\<open>s.strip(chars)\<close>.\<close>

definition strip_chars :: "string \<Rightarrow> string \<Rightarrow> string" where
  "strip_chars s chars =
     rev (dropWhile (\<lambda>c. c \<in> set chars) (rev (dropWhile (\<lambda>c. c \<in> set chars) s)))"

text \<open>The pattern \<^verbatim>\<open>(@param\s+\S+)(.+)\<close>.\<close>

definition python_param_re :: regex where
  "python_param_re = seqs [Grp 1 (seqs [Lit ''@param'', Plus CSpace, Plus CNonSpace]),
                           Grp 2 (Plus CAny)]"

text \<open>\<^verbatim>\<open>python_param_re.sub('\\1:\\2', l)\<close>: every match is replaced by its two groups with a
  colon between them.\<close>

fun sub_matches :: "string \<Rightarrow> rmatch list \<Rightarrow> string" where
  "sub_matches s [] = s"
| "sub_matches s ((b, e, g) # ms) =
     take (length s - length b) s @ the_group (b, e, g) 1 @ '':'' @ the_group (b, e, g) 2
       @ sub_matches e ms"

definition param_sub :: "string \<Rightarrow> string" where
  "param_sub l = sub_matches l (re_finditer python_param_re l)"

text \<open>\<^verbatim>\<open>python_param_re.findall(l)[0][0]\<close>, which raises \<^verbatim>\<open>IndexError\<close> without a match.\<close>

fun outparams_of :: "string list \<Rightarrow> py_error + string list" where
  "outparams_of [] = Inr []"
| "outparams_of (l # ls) =
     (case re_finditer python_param_re l of
        [] \<Rightarrow> Inl IndexError
      | m # _ \<Rightarrow> (case outparams_of ls of Inl e \<Rightarrow> Inl e | Inr ps \<Rightarrow> Inr (the_group m 1 # ps)))"

definition epydoc_comment :: "string \<Rightarrow> bool \<Rightarrow> py_error + string" where
  "epydoc_comment comment fix_first =
     (let c1 = replace (replace comment [CHR ''@'', CHR ''{''] []) ([CHR 0x5C] @ ''ingroup'') [];
          c2 = replace (replace c1 ''@see'' ''See'') ([CHR 0x5C] @ ''see'') ''See'';
          c3 = replace (replace c2 ([CHR 0x5C] @ ''note'') ''NOTE:'')
                       ([CHR 0x5C] @ ''warning'') ''WARNING:'';
          c4 = replace (replace c3 ([CHR 0x5C] @ ''param'') ''@param'')
                       ([CHR 0x5C] @ ''return'') ''@return'';
          lines = splitlines (strip c4);
          doc = filter (\<lambda>l. \<not> contains l ''@param'' \<and> \<not> contains l ''@return'') lines;
          ret = map (\<lambda>l. replace l ''@return'' ''@return:'')
                    (filter (\<lambda>l. contains l ''@return'') lines);
          params = map param_sub
                      (filter (\<lambda>l. contains l ''@param'' \<and> \<not> contains l ''[OUT]'') lines)
      in case outparams_of (filter (\<lambda>l. contains l ''@param'' \<and> contains l ''[OUT]'') lines) of
           Inl e \<Rightarrow> Inl e
         | Inr outparams \<Rightarrow>
             (let ret' = (if outparams \<noteq> []
                          then [''@return '' @ join '', '' (map (\<lambda>p. strip_chars p ''@param '') outparams)]
                          else ret);
                  params' = (if fix_first \<and> params \<noteq> [] then tl params else params)
              in Inr (join [CHR 0x0A] (doc @ params' @ ret'))))"

subsection \<open>\<^verbatim>\<open>PythonGenerator.generate_enums\<close>\<close>

text \<open>
  The conversion of a symbol name inside the loop over the values; \<^verbatim>\<open>n[0]\<close> raises
  \<^verbatim>\<open>IndexError\<close> on an empty \<open>n\<close>.
\<close>

definition enum_attribute :: "string \<Rightarrow> py_error + string" where
  "enum_attribute k0 =
     (let k = split_on (CHR ''_'') k0;
          n0 = last k;
          n1 = (if length n0 \<le> 1 then join ''_'' (drop (length k - 2) k) else n0)
      in if n1 = [] then Inl IndexError
         else Inr (if is_digit (hd n1) then ''_'' @ n1 else n1))"

text \<open>
  The loop over the values gives the entries written into \<^verbatim>\<open>_names\<close>, as pairs of the
  value text and the attribute, and the list \<open>l\<close> of constant definitions.
\<close>

fun enum_entries :: "string \<Rightarrow> (string \<times> string) list
                        \<Rightarrow> py_error + ((string \<times> string) list \<times> string list)" where
  "enum_entries pyname [] = Inr ([], [])"
| "enum_entries pyname ((k, v) # kvs) =
     (case enum_attribute k of
        Inl e \<Rightarrow> Inl e
      | Inr n \<Rightarrow>
          (case enum_entries pyname kvs of
             Inl e \<Rightarrow> Inl e
           | Inr (es, l) \<Rightarrow>
               Inr ((v, n) # es, (pyname @ ''.'' @ n @ ''='' @ pyname @ ''('' @ v @ '')'') # l)))"

definition generate_enum :: "(string \<rightharpoonup> string) \<Rightarrow> enum_def \<Rightarrow> py_error + out_item list" where
  "generate_enum t2c d =
     (case d of (typ, name, values, comment) \<Rightarrow>
        if typ \<noteq> ''enum'' then Inl (Exception ''This method only handles enums'')
        else (case t2c name of
                None \<Rightarrow> Inl (KeyError name)
              | Some pyname \<Rightarrow>
                  (case enum_entries pyname values of
                     Inl e \<Rightarrow> Inl e
                   | Inr (es, l) \<Rightarrow>
                       Inr ([Text (''class '' @ pyname @ ''(_Enum):''), EnumDoc comment,
                             Text ''    _names={'']
                            @ map (\<lambda>(v, n). EnumEntry v n) es
                            @ [Text ''    }'', Text (join [CHR 0x0A] (sort l)), Text []]))))"

fun generate_enum_list :: "(string \<rightharpoonup> string) \<Rightarrow> enum_def list \<Rightarrow> py_error + out_item list" where
  "generate_enum_list t2c [] = Inr []"
| "generate_enum_list t2c (d # ds) =
     (case generate_enum t2c d of
        Inl e \<Rightarrow> Inl e
      | Inr out \<Rightarrow>
          (case generate_enum_list t2c ds of Inl e \<Rightarrow> Inl e | Inr out' \<Rightarrow> Inr (out @ out')))"

definition generate_enums :: "(string \<rightharpoonup> string) \<Rightarrow> enum_def list \<Rightarrow> py_error + out_item list" where
  "generate_enums t2c es =
     (case generate_enum_list t2c es of Inl e \<Rightarrow> Inl e | Inr out \<Rightarrow> Inr (EnumBase # out))"

subsection \<open>\<^verbatim>\<open>PythonGenerator.output_ctypes\<close>\<close>

text \<open>\<^verbatim>\<open>str\<close> of a tuple of flags; a 1-tuple is written with a trailing comma.\<close>

definition str_flags :: "Flag list \<Rightarrow> string" where
  "str_flags t =
     (case t of
        [f] \<Rightarrow> ''('' @ str_int (flag_value f) @ '',)''
      | _ \<Rightarrow> ''('' @ join '', '' (map (\<lambda>f. str_int (flag_value f)) t) @ '')'')"

text \<open>\<^verbatim>\<open>[self.type2class[p[0]] for p in params]\<close>, with the \<^verbatim>\<open>KeyError\<close> of a missing key.\<close>

fun lookup_types :: "(string \<rightharpoonup> string) \<Rightarrow> param list \<Rightarrow> py_error + string list" where
  "lookup_types t2c [] = Inr []"
| "lookup_types t2c (p # ps) =
     (case t2c (fst p) of
        None \<Rightarrow> Inl (KeyError (fst p))
      | Some v \<Rightarrow> (case lookup_types t2c ps of Inl e \<Rightarrow> Inl e | Inr vs \<Rightarrow> Inr (v # vs)))"

text \<open>\<^verbatim>\<open>self.type2class.get(rtype, 'FIXME_%s' % (rtype,))\<close>.\<close>

definition return_class :: "(string \<rightharpoonup> string) \<Rightarrow> string \<Rightarrow> string" where
  "return_class t2c rtype = (case t2c rtype of Some v \<Rightarrow> v | None \<Rightarrow> ''FIXME_'' @ rtype)"

definition output_ctypes :: "(string \<rightharpoonup> string) \<Rightarrow> method_def \<Rightarrow> py_error + out_item list" where
  "output_ctypes t2c d =
     (case d of (rtype, method, params, comment) \<Rightarrow>
        if method \<in> set blacklist then Inr []
        else (case lookup_types t2c params of
                Inl e \<Rightarrow> Inl e
              | Inr ts \<Rightarrow>
                  (let args = join '', '' (return_class t2c rtype # ts);
                       flags0 = join '', '' (map (\<lambda>p. str_flags (paramFlag3 (fst p))) params);
                       flags = (if flags0 \<noteq> [] then flags0 @ '','' else flags0)
                   in case epydoc_comment comment False of
                        Inl e \<Rightarrow> Inl e
                      | Inr c \<Rightarrow> Inr [Ctypes method args flags c])))"

subsection \<open>\<^verbatim>\<open>PythonGenerator.generate_wrappers\<close>\<close>

text \<open>
  What \<^verbatim>\<open>parse_override\<close> returns for \<^verbatim>\<open>override.py\<close>: the code, the names of the
  methods defined there and the docstring, each by class name. The file is not part of
  the sources, so the three dictionaries are given.
\<close>

record overrides =
  ov_code :: "string \<rightharpoonup> string"
  ov_methods :: "string \<rightharpoonup> string list"
  ov_docstring :: "string \<rightharpoonup> string"

text \<open>
  The elements to wrap: the methods with a parameter whose first parameter type is
  mapped to a defined class, sorted by that class; the sort is stable. Each element
  shares its parameter list with the tuple in \<^verbatim>\<open>parser.methods\<close> it was made from, so
  an element is kept as the class and the position of that tuple, and the loop reads
  and updates the tuple at that position.
\<close>

definition wrapped_class :: "(string \<rightharpoonup> string) \<Rightarrow> method_def \<Rightarrow> string option" where
  "wrapped_class t2c d =
     (case d of (rt, met, params, c) \<Rightarrow>
        if params \<noteq> []
           \<and> (case t2c (fst (params ! 0)) of None \<Rightarrow> ''_'' | Some v \<Rightarrow> v) \<in> set defined_classes
        then t2c (fst (params ! 0)) else None)"

definition elements :: "(string \<rightharpoonup> string) \<Rightarrow> method_def list \<Rightarrow> (string \<times> nat) list" where
  "elements t2c ms =
     sort_key fst (List.map_filter (\<lambda>(i, d). map_option (\<lambda>cl. (cl, i)) (wrapped_class t2c d))
                                   (enumerate 0 ms))"

text \<open>\<^verbatim>\<open>itertools.groupby\<close>: runs of neighbours with the same key.\<close>

function groupby :: "('k \<times> 'v) list \<Rightarrow> ('k \<times> ('k \<times> 'v) list) list" where
  "groupby [] = []"
| "groupby (x # xs) =
     (fst x, x # takeWhile (\<lambda>y. fst y = fst x) xs) # groupby (dropWhile (\<lambda>y. fst y = fst x) xs)"
  by pat_completeness auto
termination
  by (relation "measure length") (auto simp add: le_imp_less_Suc length_dropWhile_le)

record wrap_state =
  ws_out :: "out_item list"
  ws_ret :: "string set"
  ws_methods :: "method_def list"

text \<open>The body of the loop over the elements of one class.\<close>

definition wrap_method :: "overrides \<Rightarrow> string \<Rightarrow> wrap_state \<Rightarrow> string \<times> nat
                            \<Rightarrow> py_error + wrap_state" where
  "wrap_method ov prefix st el =
     (case el of (cl, i) \<Rightarrow>
      case ws_methods st ! i of (rtype, method, params, comment) \<Rightarrow>
        if method \<in> set blacklist then Inr st
        else
          (let name = replace (replace method prefix []) ''libvlc_'' [];
               st1 = st\<lparr>ws_ret := insert method (ws_ret st)\<rparr>
           in if name \<in> set (case ov_methods ov cl of None \<Rightarrow> [] | Some ns \<Rightarrow> ns) then Inr st1
              else
                (let params' = (if params \<noteq> [] then params[0 := (fst (params ! 0), ''self'')]
                                else params);
                     st2 = st1\<lparr>ws_methods := (ws_methods st1)[i := (rtype, method, params', comment)]\<rparr>;
                     args = join '', '' (map snd (filter (\<lambda>p. paramFlag3 (fst p) ! 0 \<noteq> Out) params'))
                 in case epydoc_comment comment True of
                      Inl e \<Rightarrow> Inl e
                    | Inr c \<Rightarrow>
                        Inr (st2\<lparr>ws_out := ws_out st2 @ [Wrapper method name args c]
                                    @ (if name = ''count'' then [WrapperLen method]
                                       else if endswith name ''item_at_index''
                                       then [WrapperGetitem method] else [])\<rparr>))))"

fun wrap_methods :: "overrides \<Rightarrow> string \<Rightarrow> wrap_state \<Rightarrow> (string \<times> nat) list
                       \<Rightarrow> py_error + wrap_state" where
  "wrap_methods ov prefix st [] = Inr st"
| "wrap_methods ov prefix st (el # els) =
     (case wrap_method ov prefix st el of
        Inl e \<Rightarrow> Inl e
      | Inr st' \<Rightarrow> wrap_methods ov prefix st' els)"

text \<open>The body of the loop over the classes: the head of the class, then its methods.\<close>

definition class_head :: "overrides \<Rightarrow> string \<Rightarrow> out_item list" where
  "class_head ov classname =
     [Text (''class '' @ classname @ ''(object):'')]
     @ (case ov_docstring ov classname of None \<Rightarrow> [] | Some d \<Rightarrow> [ClassDoc (strip d)])
     @ (if \<not> contains (case ov_code ov classname of None \<Rightarrow> [] | Some c \<Rightarrow> c) ''def __new__''
        then [ClassNew] else [])
     @ [ClassFromParam]
     @ (case ov_code ov classname of None \<Rightarrow> [] | Some c \<Rightarrow> [Text c])"

definition wrap_class :: "py_generator \<Rightarrow> overrides \<Rightarrow> wrap_state
                           \<Rightarrow> string \<times> (string \<times> nat) list \<Rightarrow> py_error + wrap_state" where
  "wrap_class g ov st grp =
     (case grp of (classname, els) \<Rightarrow>
        wrap_methods ov (case gen_prefixes g classname of None \<Rightarrow> [] | Some pre \<Rightarrow> pre)
                     (st\<lparr>ws_out := ws_out st @ class_head ov classname\<rparr>) els)"

fun wrap_classes :: "py_generator \<Rightarrow> overrides \<Rightarrow> wrap_state
                       \<Rightarrow> (string \<times> (string \<times> nat) list) list \<Rightarrow> py_error + wrap_state" where
  "wrap_classes g ov st [] = Inr st"
| "wrap_classes g ov st (grp # grps) =
     (case wrap_class g ov st grp of
        Inl e \<Rightarrow> Inl e
      | Inr st' \<Rightarrow> wrap_classes g ov st' grps)"

text \<open>
  The result holds what was written, the set returned and \<^verbatim>\<open>parser.methods\<close> as the
  loop leaves it.
\<close>

definition generate_wrappers :: "py_generator \<Rightarrow> overrides \<Rightarrow> method_def list
                                  \<Rightarrow> py_error + wrap_state" where
  "generate_wrappers g ov ms =
     wrap_classes g ov \<lparr>ws_out = [], ws_ret = {}, ws_methods = ms\<rparr>
                  (groupby (elements (gen_type2class g) ms))"

subsection \<open>\<^verbatim>\<open>PythonGenerator.insert_code\<close> and \<^verbatim>\<open>PythonGenerator.save\<close>\<close>

text \<open>
  \<open>ctime\<close> is the text \<^verbatim>\<open>time.ctime()\<close> gives and \<open>f\<close> the lines of the file inserted.
\<close>

fun insert_code :: "py_generator \<Rightarrow> string \<Rightarrow> string list \<Rightarrow> py_error + out_item list" where
  "insert_code g ctime [] = Inr []"
| "insert_code g ctime (l # ls) =
     (case (if startswith l ''build_date'' then Inr [BuildDate ctime]
            else if startswith l ''# GENERATED_ENUMS''
            then generate_enums (gen_type2class g) (parser_enums (gen_parser g))
            else Inr [Text (rstrip l)]) of
        Inl e \<Rightarrow> Inl e
      | Inr out \<Rightarrow>
          (case insert_code g ctime ls of Inl e \<Rightarrow> Inl e | Inr out' \<Rightarrow> Inr (out @ out')))"

text \<open>
  The loop of \<^verbatim>\<open>save\<close> over \<^verbatim>\<open>parser.methods\<close>: the ctypes declaration of each method
  and the list of the methods that are not in the set of wrapped ones.
\<close>

fun ctypes_loop :: "(string \<rightharpoonup> string) \<Rightarrow> string set \<Rightarrow> method_def list
                      \<Rightarrow> py_error + (out_item list \<times> string list)" where
  "ctypes_loop t2c wrapped [] = Inr ([], [])"
| "ctypes_loop t2c wrapped (d # ds) =
     (case output_ctypes t2c d of
        Inl e \<Rightarrow> Inl e
      | Inr out \<Rightarrow>
          (case ctypes_loop t2c wrapped ds of
             Inl e \<Rightarrow> Inl e
           | Inr (out', unwrapped) \<Rightarrow>
               Inr (out @ out',
                    (if fst (snd d) \<notin> wrapped then [''#  '' @ fst (snd d)] else []) @ unwrapped)))"

text \<open>
  The result of \<^verbatim>\<open>save\<close>: everything written, in order, together with the set
  \<^verbatim>\<open>wrapped_methods\<close>, the list \<^verbatim>\<open>unwrapped_methods\<close> and \<^verbatim>\<open>parser.methods\<close> as they are
  at the end. \<open>header\<close> and \<open>footer\<close> are the lines of \<^verbatim>\<open>header.py\<close> and \<^verbatim>\<open>footer.py\<close>.
\<close>

record saved =
  sv_out :: "out_item list"
  sv_wrapped :: "string set"
  sv_unwrapped :: "string list"
  sv_methods :: "method_def list"

definition summary :: "string list \<Rightarrow> out_item list" where
  "summary unwrapped =
     (if unwrapped \<noteq> []
      then [Text (''# '' @ str_nat (length unwrapped) @ '' methods not wrapped :''),
            Text (join [CHR 0x0A] (sort unwrapped))]
      else [])"

definition save :: "py_generator \<Rightarrow> overrides \<Rightarrow> string \<Rightarrow> string list \<Rightarrow> string list
                     \<Rightarrow> py_error + saved" where
  "save g ov ctime header footer =
     (case insert_code g ctime header of
        Inl e \<Rightarrow> Inl e
      | Inr out1 \<Rightarrow>
          (case generate_wrappers g ov (parser_methods (gen_parser g)) of
             Inl e \<Rightarrow> Inl e
           | Inr ws \<Rightarrow>
               (case ctypes_loop (gen_type2class g) (ws_ret ws) (ws_methods ws) of
                  Inl e \<Rightarrow> Inl e
                | Inr (out3, unwrapped) \<Rightarrow>
                    (case insert_code g ctime footer of
                       Inl e \<Rightarrow> Inl e
                     | Inr out4 \<Rightarrow>
                         Inr \<lparr>sv_out = out1 @ ws_out ws @ out3 @ out4 @ summary unwrapped,
                              sv_wrapped = ws_ret ws,
                              sv_unwrapped = unwrapped,
                              sv_methods = ws_methods ws\<rparr>))))"

section \<open>The whole run\<close>

text \<open>
  \<^verbatim>\<open>process\<close>, and the main program without options: parse the files, build the
  generator, save. An exception at any step ends the run there.
\<close>

definition process :: "string list \<Rightarrow> overrides \<Rightarrow> string \<Rightarrow> string list \<Rightarrow> string list
                        \<Rightarrow> string list list \<Rightarrow> py_error + saved" where
  "process iterkeys ov ctime header footer list_of_includes =
     (case Parser list_of_includes of
        Inl e \<Rightarrow> Inl e
      | Inr p \<Rightarrow>
          (case PythonGenerator iterkeys p of
             Inl e \<Rightarrow> Inl e
           | Inr g \<Rightarrow> save g ov ctime header footer))"

section \<open>The Java generator\<close>

text \<open>\<^verbatim>\<open>JavaGenerator.type2class\<close>.\<close>

definition java_type2class :: "(string \<times> string) list" where
  "java_type2class =
     [(''libvlc_media_player_t*'', ''LibVlcMediaPlayer''),
      (''libvlc_instance_t*'', ''LibVlcInstance''),
      (''libvlc_media_t*'', ''LibVlcMedia''),
      (''libvlc_log_t*'', ''LibVlcLog''),
      (''libvlc_log_iterator_t*'', ''LibVlcLogIterator''),
      (''libvlc_log_message_t*'', ''libvlc_log_message_t''),
      (''libvlc_event_type_t'', ''int''),
      (''libvlc_event_manager_t*'', ''LibVlcEventManager''),
      (''libvlc_media_discoverer_t*'', ''LibVlcMediaDiscoverer''),
      (''libvlc_media_library_t*'', ''LibVlcMediaLibrary''),
      (''libvlc_media_list_t*'', ''LibVlcMediaList''),
      (''libvlc_media_list_player_t*'', ''LibVlcMediaListPlayer''),
      (''libvlc_media_list_view_t*'', ''LibVlcMediaListView''),
      (''libvlc_media_stats_t*'', ''LibVlcMediaStats''),
      (''libvlc_media_track_info_t**'', ''LibVlcMediaTrackInfo''),
      (''libvlc_track_description_t*'', ''LibVlcTrackDescription''),
      (''libvlc_audio_output_t*'', ''LibVlcAudioOutput''),
      (''void'', ''void''),
      (''void*'', ''Pointer''),
      (''short'', ''short''),
      (''char*'', ''String''),
      (''char**'', ''String[]''),
      (''uint32_t'', ''uint32''),
      (''float'', ''float''),
      (''unsigned'', ''int''),
      (''unsigned*'', ''Pointer''),
      (''int'', ''int''),
      (''int*'', ''Pointer''),
      (''...'', ''FIXMEva_list''),
      (''libvlc_callback_t'', ''LibVlcCallback''),
      (''libvlc_time_t'', ''long'')]"

text \<open>The pattern \<^verbatim>\<open>libvlc_(.+?)(_[te])?$\<close> of \<^verbatim>\<open>JavaGenerator.convert_enum_names\<close>.\<close>

definition java_enum_name_re :: regex where
  "java_enum_name_re =
     seqs [Lit ''libvlc_'', Grp 1 (PlusLazy CAny), Opt (Grp 2 (Alt (Lit ''_t'') (Lit ''_e''))), Eol]"

definition java_enum_pyname :: "string \<Rightarrow> py_error + string" where
  "java_enum_pyname name =
     (case re_search java_enum_name_re name of
        None \<Rightarrow> Inl IndexError
      | Some m \<Rightarrow>
          (let pyname = the_group m 1 in
           Inr (if CHR ''_'' \<in> set pyname then replace (title pyname) ''_'' []
                else if \<not> is_upper (hd pyname) then capitalize pyname
                else pyname)))"

fun java_convert_enum_names :: "enum_def list \<Rightarrow> (string \<rightharpoonup> string) \<Rightarrow> py_error + (string \<rightharpoonup> string)" where
  "java_convert_enum_names [] res = Inr res"
| "java_convert_enum_names ((typ, name, values, comment) # es) res =
     (if typ \<noteq> ''enum'' then Inl (Exception ''This method only handles enums'')
      else (case java_enum_pyname name of
              Inl e \<Rightarrow> Inl e
            | Inr pyname \<Rightarrow> java_convert_enum_names es (res(name \<mapsto> pyname))))"

text \<open>\<^verbatim>\<open>JavaGenerator.check_types\<close> skips the blacklisted methods.\<close>

fun java_check_types :: "(string \<rightharpoonup> string) \<Rightarrow> method_def list \<Rightarrow> py_error option" where
  "java_check_types t2c [] = None"
| "java_check_types t2c ((rt, met, params, c) # ms) =
     (if met \<in> set blacklist then java_check_types t2c ms
      else (case check_params t2c met params of
              Some e \<Rightarrow> Some e
            | None \<Rightarrow> java_check_types t2c ms))"

text \<open>\<^verbatim>\<open>JavaGenerator.__init__\<close>: the type table with the enum names, once checked.\<close>

definition JavaGenerator :: "parser \<Rightarrow> py_error + (string \<rightharpoonup> string)" where
  "JavaGenerator p =
     (case java_convert_enum_names (parser_enums p) (map_of java_type2class) of
        Inl e \<Rightarrow> Inl e
      | Inr t2c \<Rightarrow>
          (case java_check_types t2c (parser_methods p) of
             Some e \<Rightarrow> Inl e
           | None \<Rightarrow> Inr t2c))"

text \<open>
  The declaration \<^verbatim>\<open>generate_libvlc\<close> writes for one method: the return type, the name
  and the parameters of the line \<^verbatim>\<open>"%s %s(%s);\n"\<close>; nothing for a blacklisted method.
\<close>

fun java_params :: "(string \<rightharpoonup> string) \<Rightarrow> param list \<Rightarrow> py_error + string list" where
  "java_params t2c [] = Inr []"
| "java_params t2c (p # ps) =
     (case t2c (fst p) of
        None \<Rightarrow> Inl (KeyError (fst p))
      | Some v \<Rightarrow>
          (case java_params t2c ps of Inl e \<Rightarrow> Inl e | Inr vs \<Rightarrow> Inr ((v @ '' '' @ snd p) # vs)))"

definition java_declaration :: "(string \<rightharpoonup> string) \<Rightarrow> method_def \<Rightarrow> py_error + string list" where
  "java_declaration t2c d =
     (case d of (rtype, method, params, comment) \<Rightarrow>
        if method \<in> set blacklist then Inr []
        else (case java_params t2c params of
                Inl e \<Rightarrow> Inl e
              | Inr ps \<Rightarrow>
                  Inr [return_class t2c rtype @ '' '' @ method @ ''('' @ join '', '' ps
                         @ '');'' @ [CHR 0x0A]]))"

section \<open>Notions used to state the properties\<close>

text \<open>
  A piece of a member list is an implicit member when, stripped, it is not empty, does
  not start a comment and has no \<^verbatim>\<open>=\<close>; it is an explicit member with name \<open>n\<close> and
  value text \<open>v\<close> when it does not start a comment and splits at its \<^verbatim>\<open>=\<close> into exactly
  \<open>n\<close> and \<open>v\<close>.
\<close>

definition implicit_member :: "string \<Rightarrow> bool" where
  "implicit_member p =
     (strip p \<noteq> [] \<and> \<not> startswith (strip p) ''/*'' \<and> CHR ''='' \<notin> set (strip p))"

definition explicit_member :: "string \<Rightarrow> (string \<times> string) option" where
  "explicit_member p =
     (let l = strip p in
      if startswith l ''/*'' \<or> CHR ''='' \<notin> set l then None
      else (case re_split assign_re l of [n, v] \<Rightarrow> Some (n, v) | _ \<Rightarrow> None))"

text \<open>
  What the recovery of parameter names has to give for the parameters \<open>params0\<close> of
  \<open>method\<close>: as many parameters, with the same types; when the comment has fewer tags
  than there are parameters, the names found at their positions, \<open>param<i>\<close> at the
  others, and the two lines of the report; otherwise the first names found and no
  report.
\<close>

definition recovered :: "string \<Rightarrow> string \<Rightarrow> param list \<Rightarrow> param list \<Rightarrow> string list \<Rightarrow> bool" where
  "recovered method comment params0 params pr =
     (length params = length params0
      \<and> map fst params = map fst params0
      \<and> (let names = re_findall1 comment_re comment in
           (length names < length params0 \<longrightarrow>
              (\<forall>i<length params0.
                  snd (params ! i) = (if i < length names then names ! i else ''param'' @ str_nat i))
              \<and> pr = [''### Error ###'',
                      ''### Cannot get parameter names from comment for '' @ method @ '': ''
                        @ replace comment [CHR 0x0A] '' ''])
         \<and> (length params0 \<le> length names \<longrightarrow>
              map snd params = take (length params0) names \<and> pr = [])))"

text \<open>The C function an item of the output declares or wraps, if it does.\<close>

fun item_method :: "out_item \<Rightarrow> string option" where
  "item_method (Wrapper m name args c) = Some m"
| "item_method (WrapperLen m) = Some m"
| "item_method (WrapperGetitem m) = Some m"
| "item_method (Ctypes m args flags c) = Some m"
| "item_method it = None"

text \<open>
  An item is clean when it declares or wraps no blacklisted function; the state of
  \<^verbatim>\<open>generate_wrappers\<close> is clean when no blacklisted name is in the set of wrapped
  methods and every item written is clean.
\<close>

definition clean_item :: "out_item \<Rightarrow> bool" where
  "clean_item it = (case item_method it of None \<Rightarrow> True | Some m \<Rightarrow> m \<notin> set blacklist)"

definition clean_state :: "wrap_state \<Rightarrow> bool" where
  "clean_state st =
     ((\<forall>m\<in>set blacklist. m \<notin> ws_ret st) \<and> (\<forall>it\<in>set (ws_out st). clean_item it))"

definition method_names :: "method_def list \<Rightarrow> string list" where
  "method_names ms = map (\<lambda>d. fst (snd d)) ms"

text \<open>
  Whether the loop of \<^verbatim>\<open>generate_wrappers\<close> writes a class wrapper for a declaration
  taken as an element of class \<open>cl\<close> with the prefix \<open>prefix\<close>: it is not blacklisted and
  its short name is not among the methods the override file defines for the class. A
  declaration gets a wrapper when it is an element of some class and the loop writes
  one for it with the prefix of that class.
\<close>

definition class_prefix :: "py_generator \<Rightarrow> string \<Rightarrow> string" where
  "class_prefix g cl = (case gen_prefixes g cl of None \<Rightarrow> [] | Some pre \<Rightarrow> pre)"

definition makes_wrapper :: "overrides \<Rightarrow> string \<Rightarrow> string \<Rightarrow> method_def \<Rightarrow> bool" where
  "makes_wrapper ov prefix cl d =
     (fst (snd d) \<notin> set blacklist
      \<and> replace (replace (fst (snd d)) prefix []) ''libvlc_'' []
          \<notin> set (case ov_methods ov cl of None \<Rightarrow> [] | Some ns \<Rightarrow> ns))"

definition gets_wrapper :: "py_generator \<Rightarrow> overrides \<Rightarrow> method_def \<Rightarrow> bool" where
  "gets_wrapper g ov d =
     (case wrapped_class (gen_type2class g) d of
        None \<Rightarrow> False
      | Some cl \<Rightarrow> makes_wrapper ov (class_prefix g cl) cl d)"

text \<open>A declaration with the name of its first parameter replaced by \<open>self\<close>.\<close>

definition renamed_self :: "method_def \<Rightarrow> method_def" where
  "renamed_self d =
     (case d of (rt, met, params, c) \<Rightarrow> (rt, met, params[0 := (fst (params ! 0), ''self'')], c))"

section \<open>Example inputs\<close>

text \<open>
  No override file content, the keys of the type table in the order of the class body,
  and a parser result with one method of \<^verbatim>\<open>MediaPlayer\<close> and one blacklisted function,
  with the generator built from it.
\<close>

definition no_overrides :: overrides where
  "no_overrides = \<lparr>ov_code = Map.empty, ov_methods = Map.empty, ov_docstring = Map.empty\<rparr>"

definition example_keys :: "string list" where
  "example_keys = map fst py_type2class"

definition example_parser :: parser where
  "example_parser =
     \<lparr>parser_methods =
        [(''int'', ''libvlc_media_player_play'', [(''libvlc_media_player_t*'', ''p_mi'')], []),
         (''void'', ''libvlc_set_exit_handler'',
          [(''libvlc_instance_t*'', ''p_i''), (''void*'', ''opaque'')], [])],
      parser_enums = [], parser_printed = []\<rparr>"

definition example_generator :: py_generator where
  "example_generator =
     \<lparr>gen_parser = example_parser, gen_type2class = map_of py_type2class,
      gen_prefixes = make_prefixes (map_of py_type2class) example_keys\<rparr>"

text \<open>A parser result whose only function has a parameter of an unknown type.\<close>

definition unmapped_parser :: parser where
  "unmapped_parser =
     \<lparr>parser_methods = [(''void'', ''libvlc_foo'', [(''foo_t'', ''x'')], [])],
      parser_enums = [], parser_printed = []\<rparr>"

section \<open>Direction classifier\<close>

text \<open>
  C4 (as stated, refuted): the claim says exactly two type tokens receive a non-input
  direction. The table has three: here are three pairwise different tokens, none of
  which is classified as \<open>In\<close>.
\<close>

theorem paramFlag3_three_non_input:
  "paramFlag3 ''int*'' = [Out] \<and> paramFlag3 ''unsigned*'' = [Out]
   \<and> paramFlag3 ''libvlc_exception_t*'' = [InOut]
   \<and> distinct [''int*'', ''unsigned*'', ''libvlc_exception_t*'']
   \<and> [Out] \<noteq> [In] \<and> [InOut] \<noteq> [In]"
  by (simp add: paramFlag3_def paramFlag3_table_def)

text \<open>
  C4 (amended): the classifier always returns a 1-tuple; the tokens with a non-input
  direction are exactly \<open>int*\<close> and \<open>unsigned*\<close> (both \<open>Out\<close>) and
  \<open>libvlc_exception_t*\<close> (\<open>InOut\<close>); every other token gives \<open>(In,)\<close>.
\<close>

theorem paramFlag3_classification:
  "length (paramFlag3 typ) = 1
   \<and> (paramFlag3 typ = [Out] \<longleftrightarrow> typ = ''int*'' \<or> typ = ''unsigned*'')
   \<and> (paramFlag3 typ = [InOut] \<longleftrightarrow> typ = ''libvlc_exception_t*'')
   \<and> (paramFlag3 typ = [In] \<longleftrightarrow>
        typ \<noteq> ''int*'' \<and> typ \<noteq> ''unsigned*'' \<and> typ \<noteq> ''libvlc_exception_t*'')"
  by (simp add: paramFlag3_def paramFlag3_table_def)

section \<open>Enum parsing\<close>

text \<open>
  C1: the single input line \<^verbatim>\<open>enum { RED, GREEN=5, BLUE };\<close>. The name group
  \<^verbatim>\<open>(\S+)\<close> of \<^verbatim>\<open>enum_re\<close> is not optional, so the pattern does not match an enum without
  a name and \<^verbatim>\<open>parse_typedef\<close> yields nothing for this line, with or without its line
  end; the branch that would give the name \<^verbatim>\<open>libvlc_enum_t\<close> is never reached.
\<close>

theorem parse_typedef_anonymous_enum:
  "re_match enum_re ''enum { RED, GREEN=5, BLUE };'' = None
   \<and> parse_typedef [''enum { RED, GREEN=5, BLUE };''] = Inr []
   \<and> parse_typedef [''enum { RED, GREEN=5, BLUE };\<newline>''] = Inr []"
  by code_simp

text \<open>With a name the same members are parsed as the example expects.\<close>

lemma parse_typedef_named_enum:
  "parse_typedef [''enum libvlc_x_t { RED, GREEN=5, BLUE };\<newline>'']
   = Inr [(''enum'', ''libvlc_x_t'', [(''RED'', ''0''), (''GREEN'', ''5''), (''BLUE'', ''6'')], [])]"
  by code_simp

subsection \<open>The running counter\<close>

lemma upt_map_shift: "map f [0..<Suc n] = f 0 # map (\<lambda>i. f (Suc i)) [0..<n]"
  by (simp add: map_upt_Suc del: upt_Suc)

text \<open>A run of implicit members takes the counter's values \<open>val\<close>, \<open>val + 1\<close>, ...\<close>

lemma enum_values_implicit:
  "\<forall>p\<in>set rs. implicit_member p \<Longrightarrow>
   enum_values rs val acc =
     Inr (acc @ zip (map strip rs) (map (\<lambda>i. str_int (val + int i)) [0..<length rs]))"
proof (induction rs arbitrary: val acc)
  case Nil
  then show ?case by simp
next
  case (Cons r rs)
  have r: "implicit_member r" and rs: "\<forall>p\<in>set rs. implicit_member p"
    using Cons.prems by simp_all
  have step: "enum_values (r # rs) val acc = enum_values rs (val + 1) (acc @ [(strip r, str_int val)])"
    using r by (simp add: implicit_member_def Let_def)
  have sh: "map (\<lambda>i. str_int (val + int i)) [0..<Suc (length rs)]
          = str_int val # map (\<lambda>i. str_int (val + 1 + int i)) [0..<length rs]"
    by (simp add: upt_map_shift algebra_simps del: upt_Suc)
  show ?case
    unfolding step Cons.IH[OF rs] by (simp add: sh del: upt_Suc)
qed

text \<open>
  Whatever pieces come first, if the loop gets through them it goes on from some counter
  value with the list built so far.
\<close>

lemma enum_values_prefix:
  "enum_values qs val acc = Inr vs \<Longrightarrow>
   \<exists>val'. \<forall>ys. enum_values (qs @ ys) val acc = enum_values ys val' vs"
proof (induction qs arbitrary: val acc)
  case Nil
  then show ?case by auto
next
  case (Cons q qs)
  show ?case
  proof (cases "startswith (strip q) ''/*''")
    case True
    with Cons.prems have "enum_values qs val acc = Inr vs" by (simp add: Let_def)
    from Cons.IH[OF this] True show ?thesis by (simp add: Let_def)
  next
    case nc: False
    show ?thesis
    proof (cases "CHR ''='' \<in> set (strip q)")
      case False
      let ?acc = "if strip q \<noteq> [] then acc @ [(strip q, str_int val)] else acc"
      from Cons.prems nc False have "enum_values qs (val + 1) ?acc = Inr vs"
        by (simp add: Let_def)
      from Cons.IH[OF this] nc False show ?thesis by (simp add: Let_def)
    next
      case True
      from Cons.prems nc True obtain n v k where
        sp: "re_split assign_re (strip q) = [n, v]" and ei: "enum_int v = Some k"
        and rest: "enum_values qs (k + 1) (acc @ [(n, v)]) = Inr vs"
        by (auto simp add: Let_def split: list.splits option.splits)
      from Cons.IH[OF rest] nc True sp ei show ?thesis by (simp add: Let_def)
    qed
  qed
qed

text \<open>An explicit member sets the counter to its value plus one, whatever it was.\<close>

lemma enum_values_explicit_step:
  "explicit_member e = Some (n, v) \<Longrightarrow> enum_int v = Some k \<Longrightarrow>
   enum_values (e # rs) val acc = enum_values rs (k + 1) (acc @ [(n, v)])"
  by (auto simp add: explicit_member_def Let_def split: if_splits list.splits)

text \<open>
  C5: the counter starts at 0, so a member list \<open>rs\<close> of implicit members only is given
  the values 0, 1, 2, ... in order. An explicit member \<open>e\<close> with value text \<open>v\<close>, read by
  \<open>enum_int\<close> (base 16 when \<open>v\<close> starts with \<^verbatim>\<open>0x\<close>, base 10 otherwise) as \<open>k\<close>, keeps its
  text and sets the counter, which moves on by one after it as after every member: the
  implicit members \<open>rs\<close> that follow \<open>e\<close> are given \<open>k + 1\<close>, \<open>k + 2\<close>, ..., whatever
  pieces \<open>qs\<close> came before.
\<close>

theorem enum_values_counter:
  assumes "\<forall>p\<in>set rs. implicit_member p"
  shows "enum_values rs 0 [] =
           Inr (zip (map strip rs) (map (\<lambda>i. str_int (int i)) [0..<length rs]))
    \<and> (enum_values qs 0 [] = Inr vs \<longrightarrow> explicit_member e = Some (n, v) \<longrightarrow>
        enum_int v = Some k \<longrightarrow>
        enum_values (qs @ e # rs) 0 [] =
          Inr (vs @ (n, v) #
               zip (map strip rs) (map (\<lambda>i. str_int (k + 1 + int i)) [0..<length rs])))"
proof (intro conjI impI)
  show "enum_values rs 0 [] = Inr (zip (map strip rs) (map (\<lambda>i. str_int (int i)) [0..<length rs]))"
    using enum_values_implicit[OF assms, of 0 "[]"] by simp
next
  assume q: "enum_values qs 0 [] = Inr vs" and e: "explicit_member e = Some (n, v)"
    and k: "enum_int v = Some k"
  from enum_values_prefix[OF q] obtain val' where
    "enum_values (qs @ e # rs) 0 [] = enum_values (e # rs) val' vs" by blast
  also have "\<dots> = enum_values rs (k + 1) (vs @ [(n, v)])"
    by (rule enum_values_explicit_step[OF e k])
  also have "\<dots> = Inr ((vs @ [(n, v)]) @
                  zip (map strip rs) (map (\<lambda>i. str_int (k + 1 + int i)) [0..<length rs]))"
    by (rule enum_values_implicit[OF assms])
  finally show "enum_values (qs @ e # rs) 0 [] =
          Inr (vs @ (n, v) #
               zip (map strip rs) (map (\<lambda>i. str_int (k + 1 + int i)) [0..<length rs]))"
    by simp
qed

theorem enum_values_counter_witness:
  "implicit_member ''C'' \<and> implicit_member '' D ''
   \<and> enum_values [''C'', '' D ''] 0 [] = Inr [(''C'', ''0''), (''D'', ''1'')]
   \<and> enum_values [''A''] 0 [] = Inr [(''A'', ''0'')]
   \<and> explicit_member ''B = 0x10'' = Some (''B'', ''0x10'')
   \<and> enum_int ''0x10'' = Some 16
   \<and> enum_values ([''A''] @ ''B = 0x10'' # [''C'', '' D '']) 0 []
       = Inr [(''A'', ''0''), (''B'', ''0x10''), (''C'', ''17''), (''D'', ''18'')]"
proof -
  have h: "\<forall>p\<in>set [''C'', '' D '']. implicit_member p" by code_simp
  have q: "enum_values [''A''] 0 [] = Inr [(''A'', ''0'')]" by code_simp
  have e: "explicit_member ''B = 0x10'' = Some (''B'', ''0x10'')" by code_simp
  have k: "enum_int ''0x10'' = Some 16" by code_simp
  have z1: "zip (map strip [''C'', '' D ''])
                (map (\<lambda>i. str_int (int i)) [0..<length [''C'', '' D '']])
       = [(''C'', ''0''), (''D'', ''1'')]" by code_simp
  have z2: "zip (map strip [''C'', '' D ''])
                (map (\<lambda>i. str_int (16 + 1 + int i)) [0..<length [''C'', '' D '']])
       = [(''C'', ''17''), (''D'', ''18'')]" by code_simp
  from enum_values_counter[OF h, of "[''A'']" "[(''A'', ''0'')]" "''B = 0x10''" "''B''" "''0x10''" 16]
  have "enum_values [''C'', '' D ''] 0 [] = Inr [(''C'', ''0''), (''D'', ''1'')]"
    and "enum_values ([''A''] @ ''B = 0x10'' # [''C'', '' D '']) 0 []
       = Inr ([(''A'', ''0'')] @ (''B'', ''0x10'') # [(''C'', ''17''), (''D'', ''18'')])"
    unfolding z1 z2 using q e k by blast+
  moreover have "implicit_member ''C'' \<and> implicit_member '' D ''" using h by simp
  ultimately show ?thesis using q e k by simp
qed

section \<open>Function prototypes\<close>

text \<open>
  C7: the file holding the documentation comment with \<^verbatim>\<open>\param name the label\<close> and the
  single-line prototype \<^verbatim>\<open>VLC_PUBLIC_API int foo(const char * name);\<close> yields one
  declaration with return type \<^verbatim>\<open>int\<close>, name \<^verbatim>\<open>foo\<close> and the parameter list
  \<^verbatim>\<open>[("char*", "name")]\<close>, and prints nothing. \<^verbatim>\<open>parse_param\<close> drops \<^verbatim>\<open>const\<close>, puts
  the star on the type whether it stands by the type or by the name, and takes the
  blanks out of the type.
\<close>

theorem parse_include_foo:
  "parse_include [''/**\<newline>'', '' * '' @ [CHR 0x5C] @ ''param name the label\<newline>'', '' */\<newline>'',
                  ''VLC_PUBLIC_API int foo(const char * name);\<newline>'']
     = Inr ([(''int'', ''foo'', [(''char*'', ''name'')],
              [CHR 0x5C] @ ''param name the label\<newline>'')], [])
   \<and> parse_include [''VLC_PUBLIC_API int foo(const char * name);'']
     = Inr ([(''int'', ''foo'', [(''char*'', ''name'')], [])], [])
   \<and> parse_param ''int foo'' = Inr (''int'', ''foo'')
   \<and> parse_param ''const char * name'' = Inr (''char*'', ''name'')
   \<and> parse_param ''const char *name'' = Inr (''char*'', ''name'')"
  by code_simp

subsection \<open>Recovery of parameter names\<close>

lemma badnames_fold:
  "k \<le> length names \<Longrightarrow> length bad = n \<Longrightarrow>
   length (fold (\<lambda>i b. b[i := names ! i]) [0..<k] bad) = n
   \<and> (\<forall>i<n. fold (\<lambda>i b. b[i := names ! i]) [0..<k] bad ! i = (if i < k then names ! i else bad ! i))"
proof (induction k)
  case 0
  then show ?case by simp
next
  case (Suc k)
  then have IH: "length (fold (\<lambda>i b. b[i := names ! i]) [0..<k] bad) = n"
    "\<forall>i<n. fold (\<lambda>i b. b[i := names ! i]) [0..<k] bad ! i = (if i < k then names ! i else bad ! i)"
    by simp_all
  show ?case using IH by (auto simp add: nth_list_update less_Suc_eq)
qed

lemma badnames_length: "length (badnames names n) = n"
  using badnames_fold[of "length names" names "map (\<lambda>i. ''param'' @ str_nat i) [0..<n]" n]
  by (simp add: badnames_def)

lemma badnames_nth:
  "i < n \<Longrightarrow> badnames names n ! i = (if i < length names then names ! i else ''param'' @ str_nat i)"
  using badnames_fold[of "length names" names "map (\<lambda>i. ''param'' @ str_nat i) [0..<n]" n]
  by (simp add: badnames_def)

lemma enumerate_map_nth:
  "map (\<lambda>(i, p). f i p) (enumerate 0 xs) = map (\<lambda>i. f i (xs ! i)) [0..<length xs]"
  by (rule nth_equalityI) (simp_all add: nth_enumerate_eq)

lemma recover_names_recovered:
  "recovered method comment params (fst (recover_names method comment params))
                                   (snd (recover_names method comment params))"
proof -
  let ?names = "re_findall1 comment_re comment"
  show ?thesis
  proof (cases "length ?names < length params")
    case True
    then show ?thesis
      by (auto simp add: recovered_def recover_names_def Let_def enumerate_map_nth badnames_nth
          intro!: nth_equalityI)
  next
    case False
    then show ?thesis
      by (auto simp add: recovered_def recover_names_def Let_def enumerate_map_nth
          intro!: nth_equalityI)
  qed
qed

text \<open>
  C8: when a prototype matches, its return expression and parameters parse, the list is
  not the lone \<^verbatim>\<open>void\<close>, and some parameter has an empty name, \<^verbatim>\<open>parse_include\<close> yields
  the declaration (nothing is raised) with recovered parameters: as many as before,
  with the same types; if the comment has fewer \<^verbatim>\<open>param\<close> tags than there are parameters,
  the names found keep their positions, the others are \<^verbatim>\<open>param<i>\<close> counted from 0,
  and the defect is printed with the function name and the comment.
\<close>

theorem parse_api_recovers_names:
  assumes m: "re_match api_re l = Some m"
    and r: "parse_param (the_group m 1) = Inr (rtype, method)"
    and ps: "parse_params (re_split paramlist_re (the_group m 2)) = Inr params0"
    and nv: "\<not> (length params0 = 1 \<and> fst (params0 ! 0) = ''void'')"
    and em: "filter (\<lambda>p. snd p = []) params0 \<noteq> []"
  shows "\<exists>params pr. parse_api comment l = Inr (Some ((rtype, method, params, comment), pr))
           \<and> recovered method comment params0 params pr"
proof -
  obtain params pr where rn: "recover_names method comment params0 = (params, pr)"
    by (cases "recover_names method comment params0") auto
  have "parse_api comment l = Inr (Some ((rtype, method, params, comment), pr))"
    using m r ps nv em rn by (auto simp add: parse_api_def Let_def)
  moreover have "recovered method comment params0 params pr"
    using recover_names_recovered[of "method" "comment" "params0"] rn by simp
  ultimately show ?thesis by blast
qed

theorem parse_api_recovers_names_witness:
  "re_match api_re ''VLC_PUBLIC_API int foo(const char *, int, float);''
     = Some (''VLC_PUBLIC_API int foo(const char *, int, float);'', '';'',
             [(2, ''const char *, int, float''), (1, ''int foo'')])
   \<and> parse_param ''int foo'' = Inr (''int'', ''foo'')
   \<and> parse_params (re_split paramlist_re ''const char *, int, float'')
       = Inr [(''char*'', ''''), (''int'', ''''), (''float'', '''')]
   \<and> re_findall1 comment_re ([CHR 0x5C] @ ''param name the label\<newline>'') = [''name'']
   \<and> parse_api ([CHR 0x5C] @ ''param name the label\<newline>'')
        ''VLC_PUBLIC_API int foo(const char *, int, float);''
       = Inr (Some ((''int'', ''foo'',
                     [(''char*'', ''name''), (''int'', ''param1''), (''float'', ''param2'')],
                     [CHR 0x5C] @ ''param name the label\<newline>''),
                    [''### Error ###'',
                     ''### Cannot get parameter names from comment for foo: ''
                       @ [CHR 0x5C] @ ''param name the label '']))"
proof -
  let ?l = "''VLC_PUBLIC_API int foo(const char *, int, float);''"
  let ?c = "[CHR 0x5C] @ ''param name the label\<newline>''"
  let ?m = "(?l, '';'', [(2, ''const char *, int, float''), (1, ''int foo'')])"
  let ?p0 = "[(''char*'', ''''), (''int'', ''''), (''float'', '''')]"
  have m: "re_match api_re ?l = Some ?m" by code_simp
  have g1: "the_group ?m 1 = ''int foo''" by code_simp
  have g2: "the_group ?m 2 = ''const char *, int, float''" by code_simp
  have r: "parse_param ''int foo'' = Inr (''int'', ''foo'')" by code_simp
  have ps: "parse_params (re_split paramlist_re ''const char *, int, float'') = Inr ?p0"
    by code_simp
  have nv: "\<not> (length ?p0 = 1 \<and> fst (?p0 ! 0) = ''void'')" by simp
  have em: "filter (\<lambda>p. snd p = []) ?p0 \<noteq> []" by simp
  have fa: "re_findall1 comment_re ?c = [''name'']" by code_simp
  have val: "parse_api ?c ?l
       = Inr (Some ((''int'', ''foo'',
                     [(''char*'', ''name''), (''int'', ''param1''), (''float'', ''param2'')], ?c),
                    [''### Error ###'',
                     ''### Cannot get parameter names from comment for foo: ''
                       @ [CHR 0x5C] @ ''param name the label '']))"
    by code_simp
  have r': "parse_param (the_group ?m 1) = Inr (''int'', ''foo'')" by code_simp
  have ps': "parse_params (re_split paramlist_re (the_group ?m 2)) = Inr ?p0" by code_simp
  have ex: "\<exists>params pr. parse_api ?c ?l = Inr (Some ((''int'', ''foo'', params, ?c), pr))
           \<and> recovered ''foo'' ?c ?p0 params pr"
    by (rule parse_api_recovers_names[OF m r' ps' nv em])
  from ex show ?thesis
    apply -
    apply (intro conjI)
        apply (rule m)
       apply (rule r)
      apply (rule ps)
     apply (rule fa)
    apply (rule val)
    done
qed

section \<open>Type checks of the generators\<close>

text \<open>
  C10: the type check of the Python generator goes over every parsed function,
  blacklisted or not. The file that declares the blacklisted
  \<^verbatim>\<open>libvlc_set_exit_handler\<close> with a parameter of the unknown type \<^verbatim>\<open>foo_t\<close> parses;
  building the Python generator raises the exception that names the type, the function
  and the parameter, whatever the order of the dictionary; yet \<^verbatim>\<open>output_ctypes\<close> writes
  nothing for this function, with any type table. The Java generator, whose check skips
  the blacklisted functions, is built from the same parser.
\<close>

theorem python_check_covers_blacklisted:
  "Parser [[''VLC_PUBLIC_API void libvlc_set_exit_handler(foo_t x);\<newline>'']]
     = Inr \<lparr>parser_methods = [(''void'', ''libvlc_set_exit_handler'', [(''foo_t'', ''x'')], [])],
            parser_enums = [], parser_printed = []\<rparr>
   \<and> ''libvlc_set_exit_handler'' \<in> set blacklist
   \<and> map_of py_type2class ''foo_t'' = None
   \<and> PythonGenerator iterkeys
        \<lparr>parser_methods = [(''void'', ''libvlc_set_exit_handler'', [(''foo_t'', ''x'')], [])],
         parser_enums = [], parser_printed = []\<rparr>
       = Inl (Exception ''No conversion for foo_t (from libvlc_set_exit_handler:x)'')
   \<and> output_ctypes t2c (''void'', ''libvlc_set_exit_handler'', [(''foo_t'', ''x'')], []) = Inr []
   \<and> JavaGenerator
        \<lparr>parser_methods = [(''void'', ''libvlc_set_exit_handler'', [(''foo_t'', ''x'')], [])],
         parser_enums = [], parser_printed = []\<rparr>
       = Inr (map_of java_type2class)"
proof -
  have a: "Parser [[''VLC_PUBLIC_API void libvlc_set_exit_handler(foo_t x);\<newline>'']]
     = Inr \<lparr>parser_methods = [(''void'', ''libvlc_set_exit_handler'', [(''foo_t'', ''x'')], [])],
            parser_enums = [], parser_printed = []\<rparr>"
    by code_simp
  have b: "''libvlc_set_exit_handler'' \<in> set blacklist" by (simp add: blacklist_def)
  have c: "map_of py_type2class ''foo_t'' = None" by code_simp
  have d: "py_check_types (map_of py_type2class)
             [(''void'', ''libvlc_set_exit_handler'', [(''foo_t'', ''x'')], [])]
           = Some (Exception ''No conversion for foo_t (from libvlc_set_exit_handler:x)'')"
    using c by (simp add: no_conversion_def)
  have e: "PythonGenerator iterkeys
        \<lparr>parser_methods = [(''void'', ''libvlc_set_exit_handler'', [(''foo_t'', ''x'')], [])],
         parser_enums = [], parser_printed = []\<rparr>
       = Inl (Exception ''No conversion for foo_t (from libvlc_set_exit_handler:x)'')"
    using d by (simp add: PythonGenerator_def)
  have f: "output_ctypes t2c (''void'', ''libvlc_set_exit_handler'', [(''foo_t'', ''x'')], []) = Inr []"
    using b by (simp add: output_ctypes_def)
  have g: "JavaGenerator
        \<lparr>parser_methods = [(''void'', ''libvlc_set_exit_handler'', [(''foo_t'', ''x'')], [])],
         parser_enums = [], parser_printed = []\<rparr>
       = Inr (map_of java_type2class)"
    using b by (simp add: JavaGenerator_def)
  from a b c e f g show ?thesis by blast
qed


lemma check_params_None:
  "check_params t2c met ps = None \<longleftrightarrow> (\<forall>q\<in>set ps. t2c (fst q) \<noteq> None)"
  by (induction ps) (auto split: if_splits)

lemma check_params_Some:
  "check_params t2c met ps = Some e \<Longrightarrow>
   \<exists>ty name. (ty, name) \<in> set ps \<and> t2c ty = None \<and> e = no_conversion ty met name"
proof (induction ps)
  case Nil
  then show ?case by simp
next
  case (Cons q ps)
  obtain ty nm where q: "q = (ty, nm)" by (cases q)
  show ?case
  proof (cases "t2c ty = None")
    case True
    with Cons.prems q have "e = no_conversion ty met nm" by simp
    with True q show ?thesis by fastforce
  next
    case False
    with Cons.prems q have "check_params t2c met ps = Some e" by simp
    from Cons.IH[OF this] show ?thesis by fastforce
  qed
qed

lemma py_check_types_None:
  "py_check_types t2c ms = None \<Longrightarrow> d \<in> set ms \<Longrightarrow> q \<in> set (fst (snd (snd d))) \<Longrightarrow>
   t2c (fst q) \<noteq> None"
proof (induction ms)
  case Nil
  then show ?case by simp
next
  case (Cons m ms)
  obtain rt met ps c where m: "m = (rt, met, ps, c)" by (cases m)
  from Cons.prems(1) m have h: "check_params t2c met ps = None" and t: "py_check_types t2c ms = None"
    by (auto split: option.splits)
  show ?case
  proof (cases "d = m")
    case True
    with h m Cons.prems(3) show ?thesis by (auto simp add: check_params_None)
  next
    case False
    with Cons.prems have "d \<in> set ms" by simp
    from Cons.IH[OF t this Cons.prems(3)] show ?thesis .
  qed
qed

lemma py_check_types_Some:
  "py_check_types t2c ms = Some e \<Longrightarrow>
   \<exists>rt met ps c ty name. (rt, met, ps, c) \<in> set ms \<and> (ty, name) \<in> set ps
      \<and> t2c ty = None \<and> e = no_conversion ty met name"
proof (induction ms)
  case Nil
  then show ?case by simp
next
  case (Cons m ms)
  obtain rt met ps c where m: "m = (rt, met, ps, c)" by (cases m)
  show ?case
  proof (cases "check_params t2c met ps")
    case None
    with Cons.prems m have "py_check_types t2c ms = Some e" by simp
    from Cons.IH[OF this] show ?thesis by fastforce
  next
    case (Some e')
    with Cons.prems m have "e' = e" by simp
    with Some check_params_Some[of t2c met ps e] m show ?thesis by fastforce
  qed
qed

lemma java_check_types_None:
  "java_check_types t2c ms = None \<Longrightarrow> d \<in> set ms \<Longrightarrow> fst (snd d) \<notin> set blacklist \<Longrightarrow>
   q \<in> set (fst (snd (snd d))) \<Longrightarrow> t2c (fst q) \<noteq> None"
proof (induction ms)
  case Nil
  then show ?case by simp
next
  case (Cons m ms)
  obtain rt met ps c where m: "m = (rt, met, ps, c)" by (cases m)
  from Cons.prems(1) m have t: "java_check_types t2c ms = None"
    by (auto split: option.splits if_splits)
  show ?case
  proof (cases "d = m")
    case True
    with Cons.prems m have "check_params t2c met ps = None"
      by (auto split: option.splits if_splits)
    with True m Cons.prems(4) show ?thesis by (auto simp add: check_params_None)
  next
    case False
    with Cons.prems have "d \<in> set ms" by simp
    from Cons.IH[OF t this Cons.prems(3) Cons.prems(4)] show ?thesis .
  qed
qed

lemma java_check_types_Some:
  "java_check_types t2c ms = Some e \<Longrightarrow>
   \<exists>rt met ps c ty name. (rt, met, ps, c) \<in> set ms \<and> met \<notin> set blacklist
      \<and> (ty, name) \<in> set ps \<and> t2c ty = None \<and> e = no_conversion ty met name"
proof (induction ms)
  case Nil
  then show ?case by simp
next
  case (Cons m ms)
  obtain rt met ps c where m: "m = (rt, met, ps, c)" by (cases m)
  show ?case
  proof (cases "met \<notin> set blacklist \<and> check_params t2c met ps \<noteq> None")
    case False
    with Cons.prems m have "java_check_types t2c ms = Some e" by (auto split: if_splits)
    from Cons.IH[OF this] show ?thesis by fastforce
  next
    case True
    then obtain e' where e': "check_params t2c met ps = Some e'" and nb: "met \<notin> set blacklist"
      by auto
    with Cons.prems m have "e' = e" by simp
    with e' nb check_params_Some[of t2c met ps e] m show ?thesis by fastforce
  qed
qed

lemma PythonGenerator_Inr:
  "PythonGenerator iterkeys p = Inr g \<Longrightarrow>
   py_convert_enum_names (parser_enums p) (map_of py_type2class) = Inr (gen_type2class g)
   \<and> py_check_types (gen_type2class g) (parser_methods p) = None
   \<and> gen_parser g = p"
  by (auto simp add: PythonGenerator_def split: sum.splits option.splits)

text \<open>
  C2 (amended): building a generator succeeds only if every parameter type of every
  parsed function (for Java: of every function that is not blacklisted) has an entry in
  the type table; otherwise, once the enum names are converted, it raises the exception
  that names the type, the function and the parameter of a parameter without entry,
  and the run ends there, before \<^verbatim>\<open>save\<close> writes anything. The return type is not
  checked: for a function that is not blacklisted, a return type without entry is
  written as \<^verbatim>\<open>FIXME_\<close> followed by the type, by both generators.
\<close>

theorem check_types_parameters_only:
  "(PythonGenerator iterkeys p = Inr g \<longrightarrow>
      (\<forall>d\<in>set (parser_methods p). \<forall>q\<in>set (fst (snd (snd d))). gen_type2class g (fst q) \<noteq> None))
   \<and> (py_convert_enum_names (parser_enums p) (map_of py_type2class) = Inr t2c \<longrightarrow>
        PythonGenerator iterkeys p = Inl e \<longrightarrow>
        (\<exists>rt met ps c ty name. (rt, met, ps, c) \<in> set (parser_methods p) \<and> (ty, name) \<in> set ps
            \<and> t2c ty = None \<and> e = no_conversion ty met name))
   \<and> (Parser files = Inr p \<longrightarrow> PythonGenerator iterkeys p = Inl e \<longrightarrow>
        process iterkeys ov ctime header footer files = Inl e)
   \<and> (t2c rtype = None \<longrightarrow> meth \<notin> set blacklist \<longrightarrow>
        output_ctypes t2c (rtype, meth, params, cmt) = Inr out \<longrightarrow>
        (\<exists>ts flags c. out = [Ctypes meth (join '', '' ((''FIXME_'' @ rtype) # ts)) flags c]))
   \<and> (JavaGenerator p = Inr jt \<longrightarrow>
        (\<forall>d\<in>set (parser_methods p). fst (snd d) \<notin> set blacklist \<longrightarrow>
            (\<forall>q\<in>set (fst (snd (snd d))). jt (fst q) \<noteq> None)))
   \<and> (java_convert_enum_names (parser_enums p) (map_of java_type2class) = Inr t2c \<longrightarrow>
        JavaGenerator p = Inl e \<longrightarrow>
        (\<exists>rt met ps c ty name. (rt, met, ps, c) \<in> set (parser_methods p) \<and> met \<notin> set blacklist
            \<and> (ty, name) \<in> set ps \<and> t2c ty = None \<and> e = no_conversion ty met name))
   \<and> (t2c rtype = None \<longrightarrow> meth \<notin> set blacklist \<longrightarrow>
        java_declaration t2c (rtype, meth, params, cmt) = Inr jout \<longrightarrow>
        (\<exists>ps. jout = [''FIXME_'' @ rtype @ '' '' @ meth @ ''('' @ join '', '' ps @ '');'' @ [CHR 0x0A]]))"
proof (intro conjI impI)
  assume "PythonGenerator iterkeys p = Inr g"
  from PythonGenerator_Inr[OF this]
  have "py_check_types (gen_type2class g) (parser_methods p) = None" by simp
  then show "\<forall>d\<in>set (parser_methods p). \<forall>q\<in>set (fst (snd (snd d))). gen_type2class g (fst q) \<noteq> None"
    using py_check_types_None by blast
next
  assume c: "py_convert_enum_names (parser_enums p) (map_of py_type2class) = Inr t2c"
    and f: "PythonGenerator iterkeys p = Inl e"
  then have "py_check_types t2c (parser_methods p) = Some e"
    by (auto simp add: PythonGenerator_def split: option.splits)
  then show "\<exists>rt met ps c ty name. (rt, met, ps, c) \<in> set (parser_methods p) \<and> (ty, name) \<in> set ps
            \<and> t2c ty = None \<and> e = no_conversion ty met name"
    by (rule py_check_types_Some)
next
  assume "Parser files = Inr p" and "PythonGenerator iterkeys p = Inl e"
  then show "process iterkeys ov ctime header footer files = Inl e"
    by (simp add: process_def)
next
  assume "t2c rtype = None" and "meth \<notin> set blacklist"
    and "output_ctypes t2c (rtype, meth, params, cmt) = Inr out"
  then show "\<exists>ts flags c. out = [Ctypes meth (join '', '' ((''FIXME_'' @ rtype) # ts)) flags c]"
    by (auto simp add: output_ctypes_def return_class_def Let_def split: sum.splits)
next
  assume "JavaGenerator p = Inr jt"
  then have "java_check_types jt (parser_methods p) = None"
    by (auto simp add: JavaGenerator_def split: sum.splits option.splits)
  then show "\<forall>d\<in>set (parser_methods p). fst (snd d) \<notin> set blacklist \<longrightarrow>
            (\<forall>q\<in>set (fst (snd (snd d))). jt (fst q) \<noteq> None)"
    using java_check_types_None by blast
next
  assume c: "java_convert_enum_names (parser_enums p) (map_of java_type2class) = Inr t2c"
    and f: "JavaGenerator p = Inl e"
  then have "java_check_types t2c (parser_methods p) = Some e"
    by (auto simp add: JavaGenerator_def split: option.splits)
  then show "\<exists>rt met ps c ty name. (rt, met, ps, c) \<in> set (parser_methods p) \<and> met \<notin> set blacklist
            \<and> (ty, name) \<in> set ps \<and> t2c ty = None \<and> e = no_conversion ty met name"
    by (rule java_check_types_Some)
next
  assume "t2c rtype = None" and "meth \<notin> set blacklist"
    and "java_declaration t2c (rtype, meth, params, cmt) = Inr jout"
  then show "\<exists>ps. jout = [''FIXME_'' @ rtype @ '' '' @ meth @ ''('' @ join '', '' ps @ '');'' @ [CHR 0x0A]]"
    by (auto simp add: java_declaration_def return_class_def split: sum.splits)
qed

section \<open>Enum output\<close>

text \<open>
  C6 (as stated, refuted): the member declared as \<^verbatim>\<open>libvlc_Playing = 0x10\<close> is decoded
  with the value text \<^verbatim>\<open>0x10\<close> and written with that text, not with the decimal
  \<^verbatim>\<open>16\<close>, and under the attribute \<^verbatim>\<open>Playing\<close>, not under its symbol.
\<close>

theorem enum_hex_not_decimal:
  "parse_typedef [''enum libvlc_x_t { libvlc_Playing = 0x10, libvlc_Paused };\<newline>'']
     = Inr [(''enum'', ''libvlc_x_t'', [(''libvlc_Playing'', ''0x10''), (''libvlc_Paused'', ''17'')], [])]
   \<and> py_convert_enum_names
        [(''enum'', ''libvlc_x_t'', [(''libvlc_Playing'', ''0x10''), (''libvlc_Paused'', ''17'')], [])]
        (map_of py_type2class) = Inr ((map_of py_type2class)(''libvlc_x_t'' \<mapsto> ''X''))
   \<and> generate_enums ((map_of py_type2class)(''libvlc_x_t'' \<mapsto> ''X''))
        [(''enum'', ''libvlc_x_t'', [(''libvlc_Playing'', ''0x10''), (''libvlc_Paused'', ''17'')], [])]
     = Inr [EnumBase, Text ''class X(_Enum):'', EnumDoc [], Text ''    _names={'',
            EnumEntry ''0x10'' ''Playing'', EnumEntry ''17'' ''Paused'', Text ''    }'',
            Text ''X.Paused=X(17)\<newline>X.Playing=X(0x10)'', Text []]
   \<and> EnumEntry ''0x10'' ''Playing'' \<noteq> EnumEntry ''16'' ''libvlc_Playing''"
proof -
  have a: "parse_typedef [''enum libvlc_x_t { libvlc_Playing = 0x10, libvlc_Paused };\<newline>'']
     = Inr [(''enum'', ''libvlc_x_t'', [(''libvlc_Playing'', ''0x10''), (''libvlc_Paused'', ''17'')], [])]"
    by code_simp
  have n: "py_enum_pyname ''libvlc_x_t'' = Inr ''X''" by code_simp
  have b: "py_convert_enum_names
        [(''enum'', ''libvlc_x_t'', [(''libvlc_Playing'', ''0x10''), (''libvlc_Paused'', ''17'')], [])]
        (map_of py_type2class) = Inr ((map_of py_type2class)(''libvlc_x_t'' \<mapsto> ''X''))"
    using n by simp
  have en: "enum_entries ''X'' [(''libvlc_Playing'', ''0x10''), (''libvlc_Paused'', ''17'')]
     = Inr ([(''0x10'', ''Playing''), (''17'', ''Paused'')], [''X.Playing=X(0x10)'', ''X.Paused=X(17)''])"
    by code_simp
  have so: "join [CHR 0x0A] (sort [''X.Playing=X(0x10)'', ''X.Paused=X(17)'']) = ''X.Paused=X(17)\<newline>X.Playing=X(0x10)''"
    by code_simp
  have c: "generate_enums ((map_of py_type2class)(''libvlc_x_t'' \<mapsto> ''X''))
        [(''enum'', ''libvlc_x_t'', [(''libvlc_Playing'', ''0x10''), (''libvlc_Paused'', ''17'')], [])]
     = Inr [EnumBase, Text ''class X(_Enum):'', EnumDoc [], Text ''    _names={'',
            EnumEntry ''0x10'' ''Playing'', EnumEntry ''17'' ''Paused'', Text ''    }'',
            Text ''X.Paused=X(17)\<newline>X.Playing=X(0x10)'', Text []]"
    using en so by (simp add: generate_enums_def generate_enum_def)
  have d: "EnumEntry ''0x10'' ''Playing'' \<noteq> EnumEntry ''16'' ''libvlc_Playing''" by simp
  from a b c d show ?thesis by blast
qed

lemma enum_entries_shape:
  "enum_entries pyname values = Inr (es, l) \<Longrightarrow>
   map fst es = map snd values
   \<and> list_all2 (\<lambda>kv e. enum_attribute (fst kv) = Inr (snd e)) values es
   \<and> l = map (\<lambda>(v, n). pyname @ ''.'' @ n @ ''='' @ pyname @ ''('' @ v @ '')'') es"
proof (induction "values" arbitrary: es l)
  case Nil
  then show ?case by simp
next
  case (Cons kv kvs)
  obtain k v where kv: "kv = (k, v)" by (cases kv)
  from Cons.prems kv obtain n es' l' where
    n: "enum_attribute k = Inr n" and r: "enum_entries pyname kvs = Inr (es', l')"
    and es: "es = (v, n) # es'"
    and l: "l = (pyname @ ''.'' @ n @ ''='' @ pyname @ ''('' @ v @ '')'') # l'"
    by (auto split: sum.splits)
  from Cons.IH[OF r] kv n es l show ?case by simp
qed

text \<open>
  C6 (amended): for every enum that \<^verbatim>\<open>generate_enums\<close> writes, the entries of
  \<^verbatim>\<open>_names\<close> are one per member, in order; each carries the member's value text
  unchanged, hence the same integer, hexadecimal text staying hexadecimal; the symbol
  is replaced by the attribute \<open>enum_attribute\<close> derives from it (its last part after
  an underscore, the last two parts when that has at most one character, with an
  underscore in front of a digit). The constants written after the entries are built
  from the same pairs.
\<close>

theorem generate_enum_keeps_value_text:
  "generate_enum t2c (ty, name, values, cmt) = Inr out \<Longrightarrow>
   \<exists>pyname es. t2c name = Some pyname
     \<and> out = [Text (''class '' @ pyname @ ''(_Enum):''), EnumDoc cmt, Text ''    _names={'']
             @ map (\<lambda>(v, n). EnumEntry v n) es
             @ [Text ''    }'',
                Text (join [CHR 0x0A]
                        (sort (map (\<lambda>(v, n). pyname @ ''.'' @ n @ ''='' @ pyname @ ''('' @ v @ '')'') es))),
                Text []]
     \<and> map fst es = map snd values
     \<and> map enum_int (map fst es) = map enum_int (map snd values)
     \<and> list_all2 (\<lambda>kv e. enum_attribute (fst kv) = Inr (snd e)) values es"
proof -
  assume g: "generate_enum t2c (ty, name, values, cmt) = Inr out"
  then obtain pyname es l where p: "t2c name = Some pyname"
    and e: "enum_entries pyname values = Inr (es, l)"
    and o: "out = [Text (''class '' @ pyname @ ''(_Enum):''), EnumDoc cmt, Text ''    _names={'']
             @ map (\<lambda>(v, n). EnumEntry v n) es
             @ [Text ''    }'', Text (join [CHR 0x0A] (sort l)), Text []]"
    by (auto simp add: generate_enum_def split: if_splits option.splits sum.splits)
  from enum_entries_shape[OF e] have s1: "map fst es = map snd values"
    and s3: "list_all2 (\<lambda>kv e. enum_attribute (fst kv) = Inr (snd e)) values es"
    and l: "l = map (\<lambda>(v, n). pyname @ ''.'' @ n @ ''='' @ pyname @ ''('' @ v @ '')'') es"
    by simp_all
  have s4: "map enum_int (map fst es) = map enum_int (map snd values)"
    by (rule arg_cong[OF s1])
  have o': "out = [Text (''class '' @ pyname @ ''(_Enum):''), EnumDoc cmt, Text ''    _names={'']
             @ map (\<lambda>(v, n). EnumEntry v n) es
             @ [Text ''    }'',
                Text (join [CHR 0x0A]
                        (sort (map (\<lambda>(v, n). pyname @ ''.'' @ n @ ''='' @ pyname @ ''('' @ v @ '')'') es))),
                Text []]"
    unfolding o l ..
  show ?thesis
    apply (rule exI[of _ pyname])
    apply (rule exI[of _ es])
    apply (intro conjI)
        apply (rule p)
       apply (rule o')
      apply (rule s1)
     apply (rule s4)
    apply (rule s3)
    done
qed

section \<open>The blacklist\<close>

lemma method_names_update:
  assumes "fst (snd d) = fst (snd (ms ! i))"
  shows "method_names (ms[i := d]) = method_names ms"
proof (cases "i < length ms")
  case True
  with assms show ?thesis by (simp add: method_names_def map_update list_update_same_conv)
next
  case False
  then show ?thesis by (simp add: list_update_beyond)
qed

lemma wrap_method_clean:
  assumes "wrap_method ov prefix st el = Inr st'" and "clean_state st"
  shows "clean_state st' \<and> method_names (ws_methods st') = method_names (ws_methods st)"
proof -
  obtain cl i where el: "el = (cl, i)" by (cases el)
  obtain rtype meth params cmt where d: "ws_methods st ! i = (rtype, meth, params, cmt)"
    by (cases "ws_methods st ! i")
  show ?thesis
  proof (cases "meth \<in> set blacklist")
    case True
    with assms el d show ?thesis by (simp add: wrap_method_def)
  next
    case False
    have names: "method_names ((ws_methods st)[i := (rtype, meth, ps, cmt)])
                 = method_names (ws_methods st)" for ps
      by (rule method_names_update) (simp add: d)
    from assms(1) el d False show ?thesis
      using assms(2) names
      by (auto simp add: wrap_method_def Let_def clean_state_def clean_item_def
          split: if_splits sum.splits)
  qed
qed

lemma wrap_methods_clean:
  "wrap_methods ov prefix st els = Inr st' \<Longrightarrow> clean_state st \<Longrightarrow>
   clean_state st' \<and> method_names (ws_methods st') = method_names (ws_methods st)"
proof (induction els arbitrary: st)
  case Nil
  then show ?case by simp
next
  case (Cons el els)
  from Cons.prems(1) obtain st1 where s1: "wrap_method ov prefix st el = Inr st1"
    and r: "wrap_methods ov prefix st1 els = Inr st'"
    by (auto split: sum.splits)
  from wrap_method_clean[OF s1 Cons.prems(2)] Cons.IH[OF r] show ?case by simp
qed

lemma class_head_clean: "\<forall>it\<in>set (class_head ov classname). clean_item it"
  by (auto simp add: class_head_def clean_item_def split: option.splits)

lemma wrap_classes_clean:
  "wrap_classes g ov st grps = Inr st' \<Longrightarrow> clean_state st \<Longrightarrow>
   clean_state st' \<and> method_names (ws_methods st') = method_names (ws_methods st)"
proof (induction grps arbitrary: st)
  case Nil
  then show ?case by simp
next
  case (Cons grp grps)
  obtain classname els where grp: "grp = (classname, els)" by (cases grp)
  let ?st0 = "st\<lparr>ws_out := ws_out st @ class_head ov classname\<rparr>"
  from Cons.prems(1) grp obtain st1 where
    s1: "wrap_methods ov (case gen_prefixes g classname of None \<Rightarrow> [] | Some pre \<Rightarrow> pre) ?st0 els = Inr st1"
    and r: "wrap_classes g ov st1 grps = Inr st'"
    by (auto simp add: wrap_class_def split: sum.splits)
  have c0: "clean_state ?st0"
    using Cons.prems(2) class_head_clean[of ov classname] by (auto simp add: clean_state_def)
  from wrap_methods_clean[OF s1 c0] Cons.IH[OF r] show ?case by simp
qed

lemma generate_wrappers_clean:
  "generate_wrappers g ov ms = Inr ws \<Longrightarrow>
   clean_state ws \<and> method_names (ws_methods ws) = method_names ms"
  using wrap_classes_clean[of g ov "\<lparr>ws_out = [], ws_ret = {}, ws_methods = ms\<rparr>" _ ws]
  by (simp add: generate_wrappers_def clean_state_def)

lemma output_ctypes_clean: "output_ctypes t2c d = Inr out \<Longrightarrow> \<forall>it\<in>set out. clean_item it"
  by (cases d) (auto simp add: output_ctypes_def Let_def clean_item_def split: if_splits sum.splits)

lemma ctypes_loop_shape:
  "ctypes_loop t2c wrapped ds = Inr (out, unwrapped) \<Longrightarrow>
   (\<forall>it\<in>set out. clean_item it)
   \<and> unwrapped = map (\<lambda>m. ''#  '' @ m) (filter (\<lambda>m. m \<notin> wrapped) (method_names ds))"
proof (induction ds arbitrary: out unwrapped)
  case Nil
  then show ?case by (simp add: method_names_def)
next
  case (Cons d ds)
  from Cons.prems obtain o1 o2 u2 where a: "output_ctypes t2c d = Inr o1"
    and b: "ctypes_loop t2c wrapped ds = Inr (o2, u2)"
    and c: "out = o1 @ o2"
    and u: "unwrapped = (if fst (snd d) \<notin> wrapped then [''#  '' @ fst (snd d)] else []) @ u2"
    by (auto split: sum.splits)
  from output_ctypes_clean[OF a] Cons.IH[OF b] c u show ?case
    by (auto simp add: method_names_def)
qed

lemma generate_enum_clean: "generate_enum t2c d = Inr out \<Longrightarrow> \<forall>it\<in>set out. clean_item it"
  by (cases d) (auto simp add: generate_enum_def clean_item_def split: if_splits option.splits sum.splits)

lemma generate_enum_list_clean:
  "generate_enum_list t2c ds = Inr out \<Longrightarrow> \<forall>it\<in>set out. clean_item it"
proof (induction ds arbitrary: out)
  case Nil
  then show ?case by simp
next
  case (Cons d ds)
  from Cons.prems obtain o1 o2 where a: "generate_enum t2c d = Inr o1"
    and b: "generate_enum_list t2c ds = Inr o2" and c: "out = o1 @ o2"
    by (auto split: sum.splits)
  from generate_enum_clean[OF a] Cons.IH[OF b] c show ?case by auto
qed

lemma generate_enums_clean: "generate_enums t2c ds = Inr out \<Longrightarrow> \<forall>it\<in>set out. clean_item it"
  using generate_enum_list_clean[of t2c ds]
  by (auto simp add: generate_enums_def clean_item_def split: sum.splits)

lemma insert_code_clean: "insert_code g ctime f = Inr out \<Longrightarrow> \<forall>it\<in>set out. clean_item it"
proof (induction f arbitrary: out)
  case Nil
  then show ?case by simp
next
  case (Cons l ls)
  let ?one = "if startswith l ''build_date'' then Inr [BuildDate ctime]
            else if startswith l ''# GENERATED_ENUMS''
            then generate_enums (gen_type2class g) (parser_enums (gen_parser g))
            else Inr [Text (rstrip l)]"
  from Cons.prems obtain o1 o2 where a: "?one = Inr o1"
    and b: "insert_code g ctime ls = Inr o2" and c: "out = o1 @ o2"
    by (auto split: sum.splits)
  have "\<forall>it\<in>set o1. clean_item it"
    using a generate_enums_clean[of "gen_type2class g" "parser_enums (gen_parser g)" o1]
    by (auto simp add: clean_item_def split: if_splits)
  with Cons.IH[OF b] c show ?case by auto
qed

lemma summary_clean: "\<forall>it\<in>set (summary u). clean_item it"
  by (auto simp add: summary_def clean_item_def)

text \<open>
  C3 (amended): when \<^verbatim>\<open>save\<close> succeeds, a blacklisted name is not in the set of wrapped
  methods, and no item written wraps or declares it: no class method, no \<^verbatim>\<open>__len__\<close> or
  \<^verbatim>\<open>__getitem__\<close>, no ctypes declaration. If a function of that name was parsed, the
  name is in the list of unwrapped methods, and the summary with that list ends the
  output.
\<close>

theorem blacklisted_not_emitted_but_listed:
  assumes "save g ov ctime header footer = Inr s" and "m \<in> set blacklist"
  shows "m \<notin> sv_wrapped s
     \<and> (\<forall>it\<in>set (sv_out s). item_method it \<noteq> Some m)
     \<and> (m \<in> set (map (\<lambda>d. fst (snd d)) (parser_methods (gen_parser g)))
          \<longrightarrow> (''#  '' @ m) \<in> set (sv_unwrapped s)
              \<and> summary (sv_unwrapped s) \<noteq> []
              \<and> (\<exists>before. sv_out s = before @ summary (sv_unwrapped s)))"
proof -
  from assms(1) obtain out1 ws out3 unwrapped out4 where
    h: "insert_code g ctime header = Inr out1"
    and w: "generate_wrappers g ov (parser_methods (gen_parser g)) = Inr ws"
    and c: "ctypes_loop (gen_type2class g) (ws_ret ws) (ws_methods ws) = Inr (out3, unwrapped)"
    and f: "insert_code g ctime footer = Inr out4"
    and s: "s = \<lparr>sv_out = out1 @ ws_out ws @ out3 @ out4 @ summary unwrapped,
                  sv_wrapped = ws_ret ws, sv_unwrapped = unwrapped, sv_methods = ws_methods ws\<rparr>"
    by (auto simp add: save_def split: sum.splits)
  from generate_wrappers_clean[OF w] have cw: "clean_state ws"
    and nm: "method_names (ws_methods ws) = method_names (parser_methods (gen_parser g))"
    by simp_all
  from ctypes_loop_shape[OF c] have c3: "\<forall>it\<in>set out3. clean_item it"
    and u: "unwrapped = map (\<lambda>m. ''#  '' @ m)
                          (filter (\<lambda>m. m \<notin> ws_ret ws) (method_names (ws_methods ws)))"
    by simp_all
  have nw: "m \<notin> ws_ret ws" using cw assms(2) by (simp add: clean_state_def)
  have all: "\<forall>it\<in>set (sv_out s). clean_item it"
    using s insert_code_clean[OF h] insert_code_clean[OF f] c3 cw summary_clean[of unwrapped]
    by (auto simp add: clean_state_def)
  have no: "\<forall>it\<in>set (sv_out s). item_method it \<noteq> Some m"
  proof
    fix it assume "it \<in> set (sv_out s)"
    with all have "clean_item it" by blast
    with assms(2) show "item_method it \<noteq> Some m"
      by (auto simp add: clean_item_def)
  qed
  have listed: "(''#  '' @ m) \<in> set (sv_unwrapped s) \<and> summary (sv_unwrapped s) \<noteq> []
               \<and> (\<exists>before. sv_out s = before @ summary (sv_unwrapped s))"
    if "m \<in> set (map (\<lambda>d. fst (snd d)) (parser_methods (gen_parser g)))"
  proof -
    from that nm have "m \<in> set (method_names (ws_methods ws))" by (simp add: method_names_def)
    with nw u have in_u: "(''#  '' @ m) \<in> set unwrapped" by auto
    then have ne: "unwrapped \<noteq> []" by auto
    have "sv_out s = (out1 @ ws_out ws @ out3 @ out4) @ summary (sv_unwrapped s)"
      using s by simp
    with in_u ne s show ?thesis by (auto simp add: summary_def)
  qed
  from nw no listed s show ?thesis by simp
qed

section \<open>The parameter list after wrapper generation\<close>

lemma wrap_method_store:
  assumes "wrap_method ov prefix st (cl, j) = Inr st'"
  shows "ws_methods st' =
           (ws_methods st)[j := (if makes_wrapper ov prefix cl (ws_methods st ! j)
                                 then renamed_self (ws_methods st ! j) else ws_methods st ! j)]"
proof -
  obtain rtype meth params cmt where d: "ws_methods st ! j = (rtype, meth, params, cmt)"
    by (cases "ws_methods st ! j")
  obtain ovl where ovl: "(case ov_methods ov cl of None \<Rightarrow> [] | Some ns \<Rightarrow> ns) = ovl"
    by simp
  obtain name where name: "replace (replace meth prefix []) ''libvlc_'' [] = name"
    by simp
  have mw: "makes_wrapper ov prefix cl (ws_methods st ! j) \<longleftrightarrow> meth \<notin> set blacklist \<and> name \<notin> set ovl"
    by (simp add: makes_wrapper_def d ovl name)
  have same: "(ws_methods st)[j := ws_methods st ! j] = ws_methods st" by simp
  consider (bl) "meth \<in> set blacklist"
    | (ovr) "meth \<notin> set blacklist" "name \<in> set ovl"
    | (mk) "meth \<notin> set blacklist" "name \<notin> set ovl"
    by blast
  then show ?thesis
  proof cases
    case bl
    with assms d have "st' = st" by (simp add: wrap_method_def)
    with bl mw same show ?thesis by simp
  next
    case ovr
    with assms d have "st' = st\<lparr>ws_ret := insert meth (ws_ret st)\<rparr>"
      by (simp add: wrap_method_def Let_def ovl name)
    with ovr mw same show ?thesis by simp
  next
    case mk
    let ?params = "if params \<noteq> [] then params[0 := (fst (params ! 0), ''self'')] else params"
    from assms d mk have "ws_methods st' = (ws_methods st)[j := (rtype, meth, ?params, cmt)]"
      by (auto simp add: wrap_method_def Let_def ovl name split: sum.splits)
    moreover have "renamed_self (ws_methods st ! j) = (rtype, meth, ?params, cmt)"
      by (simp add: renamed_self_def d)
    ultimately show ?thesis using mk mw by simp
  qed
qed

lemma wrap_methods_store:
  assumes "wrap_methods ov prefix st els = Inr st'"
    and "distinct (map snd els)" and "\<forall>el\<in>set els. fst el = cl"
  shows "length (ws_methods st') = length (ws_methods st)
    \<and> (\<forall>k<length (ws_methods st).
          ws_methods st' ! k =
            (if k \<in> snd ` set els \<and> makes_wrapper ov prefix cl (ws_methods st ! k)
             then renamed_self (ws_methods st ! k) else ws_methods st ! k))"
  using assms
proof (induction els arbitrary: st)
  case Nil
  then show ?case by simp
next
  case (Cons el els)
  obtain j where el: "el = (cl, j)" using Cons.prems(3) by (cases el) auto
  from Cons.prems(1) obtain st1 where s1: "wrap_method ov prefix st (cl, j) = Inr st1"
    and r: "wrap_methods ov prefix st1 els = Inr st'"
    by (auto simp add: el split: sum.splits)
  let ?f = "\<lambda>d. if makes_wrapper ov prefix cl d then renamed_self d else d"
  have st1: "ws_methods st1 = (ws_methods st)[j := ?f (ws_methods st ! j)]"
    using wrap_method_store[OF s1] by simp
  have d: "distinct (map snd els)" and jn: "j \<notin> snd ` set els" and c: "\<forall>el\<in>set els. fst el = cl"
    using Cons.prems(2,3) el by auto
  from Cons.IH[OF r d c] have len: "length (ws_methods st') = length (ws_methods st1)"
    and ih: "\<forall>k<length (ws_methods st1). ws_methods st' ! k =
            (if k \<in> snd ` set els \<and> makes_wrapper ov prefix cl (ws_methods st1 ! k)
             then renamed_self (ws_methods st1 ! k) else ws_methods st1 ! k)"
    by simp_all
  have l1: "length (ws_methods st1) = length (ws_methods st)" using st1 by simp
  show ?case
  proof (intro conjI allI impI)
    show "length (ws_methods st') = length (ws_methods st)" using len l1 by simp
  next
    fix k assume k: "k < length (ws_methods st)"
    show "ws_methods st' ! k =
            (if k \<in> snd ` set (el # els) \<and> makes_wrapper ov prefix cl (ws_methods st ! k)
             then renamed_self (ws_methods st ! k) else ws_methods st ! k)"
    proof (cases "k = j")
      case True
      with ih k l1 jn have "ws_methods st' ! k = ws_methods st1 ! k" by simp
      also have "\<dots> = ?f (ws_methods st ! j)" using st1 True k by simp
      finally show ?thesis using True el by simp
    next
      case False
      with st1 have "ws_methods st1 ! k = ws_methods st ! k" by simp
      with ih k l1 False el show ?thesis by simp
    qed
  qed
qed

lemma wrap_classes_store:
  assumes "wrap_classes g ov st gs = Inr st'"
    and "distinct (map snd (concat (map snd gs)))"
    and "\<forall>gr\<in>set gs. \<forall>el\<in>set (snd gr). fst el = fst gr"
  shows "length (ws_methods st') = length (ws_methods st)
    \<and> (\<forall>k<length (ws_methods st).
          ws_methods st' ! k =
            (if \<exists>cl. (cl, k) \<in> set (concat (map snd gs))
                     \<and> makes_wrapper ov (class_prefix g cl) cl (ws_methods st ! k)
             then renamed_self (ws_methods st ! k) else ws_methods st ! k))"
  using assms
proof (induction gs arbitrary: st)
  case Nil
  then show ?case by simp
next
  case (Cons gr gs)
  obtain cl els where gr: "gr = (cl, els)" by (cases gr)
  let ?st0 = "st\<lparr>ws_out := ws_out st @ class_head ov cl\<rparr>"
  from Cons.prems(1) gr obtain st1 where
    s1: "wrap_methods ov (class_prefix g cl) ?st0 els = Inr st1"
    and r: "wrap_classes g ov st1 gs = Inr st'"
    by (auto simp add: wrap_class_def class_prefix_def split: sum.splits)
  have d1: "distinct (map snd els)" and d2: "distinct (map snd (concat (map snd gs)))"
    and dis: "snd ` set els \<inter> snd ` set (concat (map snd gs)) = {}"
    using Cons.prems(2) gr by auto
  have c1: "\<forall>el\<in>set els. fst el = cl" and c2: "\<forall>gr\<in>set gs. \<forall>el\<in>set (snd gr). fst el = fst gr"
    using Cons.prems(3) gr by auto
  from wrap_methods_store[OF s1 d1 c1]
  have l1: "length (ws_methods st1) = length (ws_methods st)"
    and e1: "\<forall>k<length (ws_methods st). ws_methods st1 ! k =
            (if k \<in> snd ` set els \<and> makes_wrapper ov (class_prefix g cl) cl (ws_methods st ! k)
             then renamed_self (ws_methods st ! k) else ws_methods st ! k)"
    by simp_all
  from Cons.IH[OF r d2 c2]
  have l2: "length (ws_methods st') = length (ws_methods st1)"
    and e2: "\<forall>k<length (ws_methods st1). ws_methods st' ! k =
            (if \<exists>cl. (cl, k) \<in> set (concat (map snd gs))
                     \<and> makes_wrapper ov (class_prefix g cl) cl (ws_methods st1 ! k)
             then renamed_self (ws_methods st1 ! k) else ws_methods st1 ! k)"
    by simp_all
  show ?case
  proof (intro conjI allI impI)
    show "length (ws_methods st') = length (ws_methods st)" using l1 l2 by simp
  next
    fix k assume k: "k < length (ws_methods st)"
    let ?rest = "set (concat (map snd gs))"
    show "ws_methods st' ! k =
            (if \<exists>c. (c, k) \<in> set (concat (map snd (gr # gs)))
                     \<and> makes_wrapper ov (class_prefix g c) c (ws_methods st ! k)
             then renamed_self (ws_methods st ! k) else ws_methods st ! k)"
    proof (cases "k \<in> snd ` set els")
      case True
      then have kc: "(cl, k) \<in> set els" using c1 by force
      from True dis have nr: "\<And>c. (c, k) \<notin> ?rest" by force
      have only: "\<And>c. (c, k) \<in> set els \<Longrightarrow> c = cl" using c1 by force
      have klt: "k < length (ws_methods st1)" using k l1 by simp
      have "ws_methods st' ! k = ws_methods st1 ! k"
        using e2[rule_format, OF klt] nr by simp
      also have "\<dots> =
          (if makes_wrapper ov (class_prefix g cl) cl (ws_methods st ! k)
           then renamed_self (ws_methods st ! k) else ws_methods st ! k)"
        using e1[rule_format, OF k] True by simp
      finally have step: "ws_methods st' ! k =
          (if makes_wrapper ov (class_prefix g cl) cl (ws_methods st ! k)
           then renamed_self (ws_methods st ! k) else ws_methods st ! k)" .
      have mem: "\<And>c. (c, k) \<in> set (concat (map snd (gr # gs))) \<longleftrightarrow> (c, k) \<in> set els \<or> (c, k) \<in> ?rest"
        by (simp add: gr)
      have eqT: "(\<exists>c. (c, k) \<in> set (concat (map snd (gr # gs)))
                     \<and> makes_wrapper ov (class_prefix g c) c (ws_methods st ! k))
                 = makes_wrapper ov (class_prefix g cl) cl (ws_methods st ! k)"
        unfolding mem using kc nr only by blast
      show ?thesis unfolding eqT by (rule step)
    next
      case False
      then have ne: "\<And>c. (c, k) \<notin> set els" by force
      have same: "ws_methods st1 ! k = ws_methods st ! k"
        using e1[rule_format, OF k] False by simp
      have klt: "k < length (ws_methods st1)" using k l1 by simp
      have step: "ws_methods st' ! k =
            (if \<exists>c. (c, k) \<in> ?rest
                     \<and> makes_wrapper ov (class_prefix g c) c (ws_methods st ! k)
             then renamed_self (ws_methods st ! k) else ws_methods st ! k)"
        using e2[rule_format, OF klt] unfolding same .
      have mem: "\<And>c. (c, k) \<in> set (concat (map snd (gr # gs))) \<longleftrightarrow> (c, k) \<in> set els \<or> (c, k) \<in> ?rest"
        by (simp add: gr)
      have eqF: "(\<exists>c. (c, k) \<in> set (concat (map snd (gr # gs)))
                     \<and> makes_wrapper ov (class_prefix g c) c (ws_methods st ! k))
                 = (\<exists>c. (c, k) \<in> ?rest
                     \<and> makes_wrapper ov (class_prefix g c) c (ws_methods st ! k))"
        unfolding mem using ne by blast
      show ?thesis unfolding eqF by (rule step)
    qed
  qed
qed

lemma groupby_concat: "concat (map snd (groupby xs)) = xs"
  by (induction xs rule: groupby.induct) simp_all

lemma groupby_keys: "gr \<in> set (groupby xs) \<Longrightarrow> el \<in> set (snd gr) \<Longrightarrow> fst el = fst gr"
  by (induction xs rule: groupby.induct) (auto dest: set_takeWhileD)

lemma map_filter_snd:
  "map snd (List.map_filter (\<lambda>(i, d). map_option (\<lambda>cl. (cl, i)) (h d)) xs)
   = map fst (filter (\<lambda>(i, d). h d \<noteq> None) xs)"
  by (induction xs) (auto simp add: List.map_filter_simps split: option.splits)

lemma distinct_map_sort_key:
  "distinct (map h xs) \<Longrightarrow> distinct (map h (sort_key f xs))"
  by (simp add: distinct_map)

lemma distinct_fst_enumerate: "distinct (map fst (enumerate n ms))"
  by simp

lemma elements_distinct: "distinct (map snd (elements t2c ms))"
proof -
  have "distinct (map fst (filter (\<lambda>(i, d). wrapped_class t2c d \<noteq> None) (enumerate 0 ms)))"
    by (rule distinct_map_filter) (rule distinct_fst_enumerate)
  then have "distinct (map snd (List.map_filter
               (\<lambda>(i, d). map_option (\<lambda>cl. (cl, i)) (wrapped_class t2c d)) (enumerate 0 ms)))"
    by (simp only: map_filter_snd)
  then show ?thesis
    unfolding elements_def by (rule distinct_map_sort_key)
qed

lemma elements_set:
  "(cl, i) \<in> set (elements t2c ms) \<longleftrightarrow> i < length ms \<and> wrapped_class t2c (ms ! i) = Some cl"
  by (auto simp add: elements_def List.map_filter_def in_set_enumerate_eq image_iff)

lemma generate_wrappers_store:
  assumes "generate_wrappers g ov ms = Inr ws"
  shows "length (ws_methods ws) = length ms
    \<and> (\<forall>i<length ms. ws_methods ws ! i =
           (if gets_wrapper g ov (ms ! i) then renamed_self (ms ! i) else ms ! i))"
proof -
  let ?gs = "groupby (elements (gen_type2class g) ms)"
  let ?st = "\<lparr>ws_out = [], ws_ret = {}, ws_methods = ms\<rparr>"
  have w: "wrap_classes g ov ?st ?gs = Inr ws" using assms(1) by (simp add: generate_wrappers_def)
  have d: "distinct (map snd (concat (map snd ?gs)))"
    by (simp add: groupby_concat elements_distinct)
  have c: "\<forall>gr\<in>set ?gs. \<forall>el\<in>set (snd gr). fst el = fst gr"
    using groupby_keys by blast
  have sel: "ws_methods ?st = ms" by simp
  have both: "length (ws_methods ws) = length ms
    \<and> (\<forall>k<length ms. ws_methods ws ! k =
            (if \<exists>cl. (cl, k) \<in> set (elements (gen_type2class g) ms)
                     \<and> makes_wrapper ov (class_prefix g cl) cl (ms ! k)
             then renamed_self (ms ! k) else ms ! k))"
    using wrap_classes_store[OF w d c] unfolding groupby_concat sel .
  have cond: "(\<exists>cl. (cl, i) \<in> set (elements (gen_type2class g) ms)
                     \<and> makes_wrapper ov (class_prefix g cl) cl (ms ! i))
              \<longleftrightarrow> gets_wrapper g ov (ms ! i)" if "i < length ms" for i
    using that by (auto simp add: elements_set gets_wrapper_def split: option.splits)
  show ?thesis
  proof (intro conjI allI impI)
    show "length (ws_methods ws) = length ms" using both by (rule conjunct1)
  next
    fix i assume i: "i < length ms"
    from both[THEN conjunct2, rule_format, OF i]
    show "ws_methods ws ! i = (if gets_wrapper g ov (ms ! i) then renamed_self (ms ! i) else ms ! i)"
      unfolding cond[OF i] .
  qed
qed

lemma gets_wrapper_params: "gets_wrapper g ov d \<Longrightarrow> fst (snd (snd d)) \<noteq> []"
  by (cases d) (auto simp add: gets_wrapper_def wrapped_class_def split: option.splits if_splits)

lemma renamed_self_first:
  "fst (snd (snd d)) \<noteq> [] \<Longrightarrow> snd (fst (snd (snd (renamed_self d))) ! 0) = ''self''"
  by (cases d) (simp add: renamed_self_def)

text \<open>
  C9: \<^verbatim>\<open>generate_wrappers\<close> changes \<^verbatim>\<open>parser.methods\<close>. When \<^verbatim>\<open>save\<close> succeeds, every
  declaration that gets a class wrapper has a parameter, and at its position the list
  holds the same declaration with the name of the first parameter replaced by
  \<^verbatim>\<open>self\<close>; this is the list \<^verbatim>\<open>generate_wrappers\<close> leaves, and the list the later loop
  over \<^verbatim>\<open>parser.methods\<close> that writes the ctypes declarations runs on.
\<close>

theorem save_renames_first_parameter:
  assumes "save g ov ctime header footer = Inr s"
    and "i < length (parser_methods (gen_parser g))"
    and "gets_wrapper g ov (parser_methods (gen_parser g) ! i)"
  shows "length (sv_methods s) = length (parser_methods (gen_parser g))
    \<and> fst (snd (snd (parser_methods (gen_parser g) ! i))) \<noteq> []
    \<and> sv_methods s ! i = renamed_self (parser_methods (gen_parser g) ! i)
    \<and> snd (fst (snd (snd (sv_methods s ! i))) ! 0) = ''self''
    \<and> (\<exists>ws out u. generate_wrappers g ov (parser_methods (gen_parser g)) = Inr ws
          \<and> ws_methods ws = sv_methods s
          \<and> ctypes_loop (gen_type2class g) (ws_ret ws) (sv_methods s) = Inr (out, u))"
proof -
  let ?ms = "parser_methods (gen_parser g)"
  from assms(1) obtain ws out u where
    w: "generate_wrappers g ov ?ms = Inr ws"
    and c: "ctypes_loop (gen_type2class g) (ws_ret ws) (ws_methods ws) = Inr (out, u)"
    and s: "sv_methods s = ws_methods ws"
    by (auto simp add: save_def split: sum.splits)
  from generate_wrappers_store[OF w] have len: "length (ws_methods ws) = length ?ms"
    and v: "\<forall>i<length ?ms. ws_methods ws ! i =
           (if gets_wrapper g ov (?ms ! i) then renamed_self (?ms ! i) else ?ms ! i)"
    by simp_all
  have ne: "fst (snd (snd (?ms ! i))) \<noteq> []" using assms(3) by (rule gets_wrapper_params)
  have r: "sv_methods s ! i = renamed_self (?ms ! i)"
    using v[rule_format, OF assms(2)] assms(3) s by simp
  have self: "snd (fst (snd (snd (sv_methods s ! i))) ! 0) = ''self''"
    unfolding r using ne by (rule renamed_self_first)
  have ex: "\<exists>ws out u. generate_wrappers g ov ?ms = Inr ws
          \<and> ws_methods ws = sv_methods s
          \<and> ctypes_loop (gen_type2class g) (ws_ret ws) (sv_methods s) = Inr (out, u)"
    using w c s by auto
  show ?thesis
    apply (intro conjI)
        apply (simp add: s len)
       apply (rule ne)
      apply (rule r)
     apply (rule self)
    apply (rule ex)
    done
qed

lemma save_keeps_other_declarations:
  assumes "save g ov ctime header footer = Inr s"
    and "i < length (parser_methods (gen_parser g))"
    and "\<not> gets_wrapper g ov (parser_methods (gen_parser g) ! i)"
  shows "sv_methods s ! i = parser_methods (gen_parser g) ! i"
proof -
  let ?ms = "parser_methods (gen_parser g)"
  from assms(1) obtain ws where
    w: "generate_wrappers g ov ?ms = Inr ws" and s: "sv_methods s = ws_methods ws"
    by (auto simp add: save_def split: sum.splits)
  from generate_wrappers_store[OF w] have
    "\<forall>i<length ?ms. ws_methods ws ! i =
           (if gets_wrapper g ov (?ms ! i) then renamed_self (?ms ! i) else ?ms ! i)"
    by simp
  from this[rule_format, OF assms(2)] assms(3) s show ?thesis by simp
qed

section \<open>The properties at the examples\<close>

lemma example_parsed:
  "Parser [[''VLC_PUBLIC_API int libvlc_media_player_play( libvlc_media_player_t *p_mi );\<newline>'',
            ''VLC_PUBLIC_API void libvlc_set_exit_handler( libvlc_instance_t *p_i, void *opaque );\<newline>'']]
     = Inr example_parser"
  by code_simp

lemma example_generator_built:
  "PythonGenerator example_keys example_parser = Inr example_generator"
proof -
  have "py_check_types (map_of py_type2class) (parser_methods example_parser) = None"
    by code_simp
  then show ?thesis
    by (simp add: PythonGenerator_def example_generator_def example_parser_def)
qed

lemma example_saved_out:
  "map_sum id sv_out (save example_generator no_overrides ''now'' [] [])
     = Inr [Text ''class Instance(object):'', ClassNew, ClassFromParam,
            Text ''class MediaPlayer(object):'', ClassNew, ClassFromParam,
            Wrapper ''libvlc_media_player_play'' ''play'' ''self'' [],
            Ctypes ''libvlc_media_player_play'' ''ctypes.c_int, MediaPlayer'' ''(1,),'' [],
            Text ''# 1 methods not wrapped :'', Text ''#  libvlc_set_exit_handler'']"
  by code_simp

lemma example_saved_unwrapped:
  "map_sum id sv_unwrapped (save example_generator no_overrides ''now'' [] [])
     = Inr [''#  libvlc_set_exit_handler'']"
  by code_simp

lemma example_saved_methods:
  "map_sum id sv_methods (save example_generator no_overrides ''now'' [] [])
     = Inr [(''int'', ''libvlc_media_player_play'', [(''libvlc_media_player_t*'', ''self'')], []),
            (''void'', ''libvlc_set_exit_handler'',
             [(''libvlc_instance_t*'', ''p_i''), (''void*'', ''opaque'')], [])]"
  by code_simp

lemma example_saved_wrapped:
  "map_sum id (\<lambda>s. ''libvlc_set_exit_handler'' \<in> sv_wrapped s)
           (save example_generator no_overrides ''now'' [] []) = Inr False"
  by code_simp

lemma example_gets_wrapper:
  "gets_wrapper example_generator no_overrides (parser_methods (gen_parser example_generator) ! 0)"
  by code_simp


text \<open>
  C3 (as stated, refuted): for the two declarations of the example, the blacklisted
  \<^verbatim>\<open>libvlc_set_exit_handler\<close> is the one line of the summary of unwrapped methods that
  ends the output.
\<close>

theorem summary_lists_blacklisted:
  "''libvlc_set_exit_handler'' \<in> set blacklist
   \<and> Parser [[''VLC_PUBLIC_API int libvlc_media_player_play( libvlc_media_player_t *p_mi );\<newline>'',
              ''VLC_PUBLIC_API void libvlc_set_exit_handler( libvlc_instance_t *p_i, void *opaque );\<newline>'']]
       = Inr example_parser
   \<and> map_sum id sv_out (save example_generator no_overrides ''now'' [] [])
       = Inr [Text ''class Instance(object):'', ClassNew, ClassFromParam,
              Text ''class MediaPlayer(object):'', ClassNew, ClassFromParam,
              Wrapper ''libvlc_media_player_play'' ''play'' ''self'' [],
              Ctypes ''libvlc_media_player_play'' ''ctypes.c_int, MediaPlayer'' ''(1,),'' [],
              Text ''# 1 methods not wrapped :'', Text ''#  libvlc_set_exit_handler'']"
  by code_simp

text \<open>
  C3 (amended), at the example: the blacklisted name was parsed, is not in the set of
  wrapped methods, and is listed as unwrapped.
\<close>

theorem blacklisted_not_emitted_but_listed_witness:
  "''libvlc_set_exit_handler'' \<in> set blacklist
   \<and> ''libvlc_set_exit_handler''
        \<in> set (map (\<lambda>d. fst (snd d)) (parser_methods (gen_parser example_generator)))
   \<and> map_sum id sv_unwrapped (save example_generator no_overrides ''now'' [] [])
        = Inr [''#  libvlc_set_exit_handler'']
   \<and> map_sum id (\<lambda>s. ''libvlc_set_exit_handler'' \<in> sv_wrapped s)
              (save example_generator no_overrides ''now'' [] []) = Inr False"
proof -
  have bl: "''libvlc_set_exit_handler'' \<in> set blacklist" by code_simp
  have nm: "''libvlc_set_exit_handler''
        \<in> set (map (\<lambda>d. fst (snd d)) (parser_methods (gen_parser example_generator)))"
    by code_simp
  obtain s where sv: "save example_generator no_overrides ''now'' [] [] = Inr s"
    using example_saved_unwrapped
    by (cases "save example_generator no_overrides ''now'' [] []") simp_all
  from blacklisted_not_emitted_but_listed[OF sv bl] show ?thesis
    apply -
    apply (intro conjI)
       apply (rule bl)
      apply (rule nm)
     apply (rule example_saved_unwrapped)
    apply (rule example_saved_wrapped)
    done
qed

text \<open>
  C9, at the example: the first declaration gets a wrapper, and after \<^verbatim>\<open>save\<close> its first
  parameter is called \<^verbatim>\<open>self\<close> in the list of methods; the blacklisted one is as it
  was.
\<close>

theorem save_renames_first_parameter_witness:
  "0 < length (parser_methods (gen_parser example_generator))
   \<and> gets_wrapper example_generator no_overrides (parser_methods (gen_parser example_generator) ! 0)
   \<and> parser_methods (gen_parser example_generator) ! 0
       = (''int'', ''libvlc_media_player_play'', [(''libvlc_media_player_t*'', ''p_mi'')], [])
   \<and> map_sum id sv_methods (save example_generator no_overrides ''now'' [] [])
       = Inr [(''int'', ''libvlc_media_player_play'', [(''libvlc_media_player_t*'', ''self'')], []),
              (''void'', ''libvlc_set_exit_handler'',
               [(''libvlc_instance_t*'', ''p_i''), (''void*'', ''opaque'')], [])]"
proof -
  have len: "0 < length (parser_methods (gen_parser example_generator))" by code_simp
  have first: "parser_methods (gen_parser example_generator) ! 0
       = (''int'', ''libvlc_media_player_play'', [(''libvlc_media_player_t*'', ''p_mi'')], [])"
    by code_simp
  obtain s where sv: "save example_generator no_overrides ''now'' [] [] = Inr s"
    using example_saved_methods
    by (cases "save example_generator no_overrides ''now'' [] []") simp_all
  from save_renames_first_parameter[OF sv len example_gets_wrapper] show ?thesis
    apply -
    apply (intro conjI)
       apply (rule len)
      apply (rule example_gets_wrapper)
     apply (rule first)
    apply (rule example_saved_methods)
    done
qed

text \<open>
  C2 (as stated, refuted): a function whose return type \<^verbatim>\<open>foo_t\<close> has no entry in the
  type table is parsed, passes the check, and is written with the return type
  \<^verbatim>\<open>FIXME_foo_t\<close>.
\<close>

theorem unmapped_return_type_emitted:
  "Parser [[''VLC_PUBLIC_API foo_t libvlc_bar(void);\<newline>'']]
     = Inr \<lparr>parser_methods = [(''foo_t'', ''libvlc_bar'', [], [])],
            parser_enums = [], parser_printed = []\<rparr>
   \<and> map_of py_type2class ''foo_t'' = None
   \<and> map_sum id sv_out (process example_keys no_overrides ''now'' [] []
                           [[''VLC_PUBLIC_API foo_t libvlc_bar(void);\<newline>'']])
       = Inr [Ctypes ''libvlc_bar'' ''FIXME_foo_t'' [] [],
              Text ''# 1 methods not wrapped :'', Text ''#  libvlc_bar'']"
  by code_simp

lemma unmapped_parsed:
  "Parser [[''VLC_PUBLIC_API void libvlc_foo(foo_t x);\<newline>'']] = Inr unmapped_parser"
  by code_simp

lemma unmapped_python:
  "PythonGenerator example_keys unmapped_parser = Inl (no_conversion ''foo_t'' ''libvlc_foo'' ''x'')"
proof -
  have "py_check_types (map_of py_type2class) (parser_methods unmapped_parser)
        = Some (no_conversion ''foo_t'' ''libvlc_foo'' ''x'')"
    by code_simp
  then show ?thesis by (simp add: PythonGenerator_def unmapped_parser_def)
qed

lemma unmapped_java:
  "JavaGenerator unmapped_parser = Inl (no_conversion ''foo_t'' ''libvlc_foo'' ''x'')"
proof -
  have "java_check_types (map_of java_type2class) (parser_methods unmapped_parser)
        = Some (no_conversion ''foo_t'' ''libvlc_foo'' ''x'')"
    by code_simp
  then show ?thesis by (simp add: JavaGenerator_def unmapped_parser_def)
qed

lemma example_java: "JavaGenerator example_parser = Inr (map_of java_type2class)"
proof -
  have "java_check_types (map_of java_type2class) (parser_methods example_parser) = None"
    by code_simp
  then show ?thesis by (simp add: JavaGenerator_def example_parser_def)
qed

text \<open>
  C2 (amended), at the examples: the generators are built for the example parser, whose
  parameter types have entries; both raise the exception naming \<^verbatim>\<open>foo_t\<close>,
  \<^verbatim>\<open>libvlc_foo\<close> and \<^verbatim>\<open>x\<close> for the parser with the unknown parameter type, and the run
  fails; both write \<^verbatim>\<open>FIXME_foo_t\<close> for the unknown return type.
\<close>

theorem check_types_parameters_only_witness:
  "PythonGenerator example_keys example_parser = Inr example_generator
   \<and> gen_type2class example_generator ''libvlc_media_player_t*'' = Some ''MediaPlayer''
   \<and> py_convert_enum_names (parser_enums unmapped_parser) (map_of py_type2class)
       = Inr (map_of py_type2class)
   \<and> PythonGenerator example_keys unmapped_parser
       = Inl (no_conversion ''foo_t'' ''libvlc_foo'' ''x'')
   \<and> Parser [[''VLC_PUBLIC_API void libvlc_foo(foo_t x);\<newline>'']] = Inr unmapped_parser
   \<and> isl (process example_keys no_overrides ''now'' [] []
              [[''VLC_PUBLIC_API void libvlc_foo(foo_t x);\<newline>'']])
   \<and> map_of py_type2class ''foo_t'' = None
   \<and> ''libvlc_bar'' \<notin> set blacklist
   \<and> output_ctypes (map_of py_type2class) (''foo_t'', ''libvlc_bar'', [], [])
       = Inr [Ctypes ''libvlc_bar'' ''FIXME_foo_t'' [] []]
   \<and> JavaGenerator example_parser = Inr (map_of java_type2class)
   \<and> java_convert_enum_names (parser_enums unmapped_parser) (map_of java_type2class)
       = Inr (map_of java_type2class)
   \<and> JavaGenerator unmapped_parser = Inl (no_conversion ''foo_t'' ''libvlc_foo'' ''x'')
   \<and> map_of java_type2class ''foo_t'' = None
   \<and> java_declaration (map_of java_type2class) (''foo_t'', ''libvlc_bar'', [], [])
       = Inr [''FIXME_foo_t libvlc_bar();\<newline>'']"
proof -
  have f2: "gen_type2class example_generator ''libvlc_media_player_t*'' = Some ''MediaPlayer''"
    by code_simp
  have f3: "py_convert_enum_names (parser_enums unmapped_parser) (map_of py_type2class)
       = Inr (map_of py_type2class)"
    by (simp add: unmapped_parser_def)
  have f6: "isl (process example_keys no_overrides ''now'' [] []
              [[''VLC_PUBLIC_API void libvlc_foo(foo_t x);\<newline>'']])"
    by (simp add: process_def unmapped_parsed unmapped_python)
  have f7: "map_of py_type2class ''foo_t'' = None" by code_simp
  have f8: "''libvlc_bar'' \<notin> set blacklist" by code_simp
  have f9: "output_ctypes (map_of py_type2class) (''foo_t'', ''libvlc_bar'', [], [])
       = Inr [Ctypes ''libvlc_bar'' ''FIXME_foo_t'' [] []]"
    by code_simp
  have f11: "java_convert_enum_names (parser_enums unmapped_parser) (map_of java_type2class)
       = Inr (map_of java_type2class)"
    by (simp add: unmapped_parser_def)
  have f13: "map_of java_type2class ''foo_t'' = None" by code_simp
  have f14: "java_declaration (map_of java_type2class) (''foo_t'', ''libvlc_bar'', [], [])
       = Inr [''FIXME_foo_t libvlc_bar();\<newline>'']"
    by code_simp
  note t1 = check_types_parameters_only[of example_keys example_parser example_generator
      "map_of py_type2class" "no_conversion ''foo_t'' ''libvlc_foo'' ''x''"]
  note t2 = check_types_parameters_only[of example_keys unmapped_parser example_generator
      "map_of py_type2class" "no_conversion ''foo_t'' ''libvlc_foo'' ''x''"
      "[[''VLC_PUBLIC_API void libvlc_foo(foo_t x);\<newline>'']]" no_overrides "''now''" "[]" "[]"
      "''foo_t''" "''libvlc_bar''" "[]" "[]"]
  from t1 t2 show ?thesis
    apply -
    apply (intro conjI)
                 apply (rule example_generator_built)
                apply (rule f2)
               apply (rule f3)
              apply (rule unmapped_python)
             apply (rule unmapped_parsed)
            apply (rule f6)
           apply (rule f7)
          apply (rule f8)
         apply (rule f9)
        apply (rule example_java)
       apply (rule f11)
      apply (rule unmapped_java)
     apply (rule f13)
    apply (rule f14)
    done
qed

text \<open>
  C6 (amended), at an enum with a hexadecimal and a decimal member.
\<close>

theorem generate_enum_keeps_value_text_witness:
  "generate_enum [''libvlc_x_t'' \<mapsto> ''X'']
      (''enum'', ''libvlc_x_t'', [(''libvlc_Playing'', ''0x10''), (''libvlc_Paused'', ''17'')], ''Doc.'')
     = Inr [Text ''class X(_Enum):'', EnumDoc ''Doc.'', Text ''    _names={'',
            EnumEntry ''0x10'' ''Playing'', EnumEntry ''17'' ''Paused'', Text ''    }'',
            Text ''X.Paused=X(17)\<newline>X.Playing=X(0x10)'', Text []]
   \<and> enum_attribute ''libvlc_Playing'' = Inr ''Playing''
   \<and> enum_attribute ''libvlc_Paused'' = Inr ''Paused''
   \<and> enum_int ''0x10'' = Some 16"
proof -
  have v: "generate_enum [''libvlc_x_t'' \<mapsto> ''X'']
      (''enum'', ''libvlc_x_t'', [(''libvlc_Playing'', ''0x10''), (''libvlc_Paused'', ''17'')], ''Doc.'')
     = Inr [Text ''class X(_Enum):'', EnumDoc ''Doc.'', Text ''    _names={'',
            EnumEntry ''0x10'' ''Playing'', EnumEntry ''17'' ''Paused'', Text ''    }'',
            Text ''X.Paused=X(17)\<newline>X.Playing=X(0x10)'', Text []]"
    by code_simp
  have a1: "enum_attribute ''libvlc_Playing'' = Inr ''Playing''" by code_simp
  have a2: "enum_attribute ''libvlc_Paused'' = Inr ''Paused''" by code_simp
  have k: "enum_int ''0x10'' = Some 16" by code_simp
  from generate_enum_keeps_value_text[OF v] show ?thesis
    apply -
    apply (intro conjI)
       apply (rule v)
      apply (rule a1)
     apply (rule a2)
    apply (rule k)
    done
qed

end
